theory Spec2Isabelle
  imports Complex_Main "HOL-Library.Word" "HOL-Library.Multiset"
begin

section \<open>Median filter: the luma-index pairs and the sorting network\<close>

text \<open>
  The post-processing kernels compute on single-precision floats. The
  development reads a float as a real number, with exact comparisons and
  exact arithmetic, except where a definition says otherwise. Three places
  keep what the floats do and the reals do not: the exponential in the blend
  weight of \<open>MedianFilter\<close> is a parameter, so that it can take the value 0
  that \<open>expf\<close> returns on underflow; the test for a NaN in \<open>MedianFilter\<close> is a
  parameter; and the eye adaption of \<open>AutoExposure\<close> is modelled a second time
  with every rounding of the kernel written out.
\<close>

record LumaIdxPair =
  luma :: real
  idx :: int

definition min_lp :: "LumaIdxPair \<Rightarrow> LumaIdxPair \<Rightarrow> LumaIdxPair" where
  "min_lp a b = (if luma a < luma b then a else b)"

definition max_lp :: "LumaIdxPair \<Rightarrow> LumaIdxPair \<Rightarrow> LumaIdxPair" where
  "max_lp a b = (if luma a > luma b then a else b)"

definition min3 :: "LumaIdxPair \<Rightarrow> LumaIdxPair \<Rightarrow> LumaIdxPair \<Rightarrow> LumaIdxPair" where
  "min3 v1 v2 v3 = min_lp (min_lp v1 v2) v3"

definition max3 :: "LumaIdxPair \<Rightarrow> LumaIdxPair \<Rightarrow> LumaIdxPair \<Rightarrow> LumaIdxPair" where
  "max3 v1 v2 v3 = max_lp (max_lp v1 v2) v3"

text \<open>
  The source passes the pairs by reference; the model returns the new values
  of the arguments, in the order of the parameters.
\<close>

definition swap_lp :: "LumaIdxPair \<Rightarrow> LumaIdxPair \<Rightarrow> LumaIdxPair \<times> LumaIdxPair" where
  "swap_lp a b = (b, a)"

definition sort2 :: "LumaIdxPair \<Rightarrow> LumaIdxPair \<Rightarrow> LumaIdxPair \<times> LumaIdxPair" where
  "sort2 a b = (if luma a > luma b then swap_lp a b else (a, b))"

definition sort3 ::
  "LumaIdxPair \<Rightarrow> LumaIdxPair \<Rightarrow> LumaIdxPair \<Rightarrow> LumaIdxPair \<times> LumaIdxPair \<times> LumaIdxPair" where
  "sort3 v1 v2 v3 =
     (let (v2a, v3a) = sort2 v2 v3;
          (v1b, v2b) = sort2 v1 v2a;
          (v2c, v3c) = sort2 v2b v3a
      in (v1b, v2c, v3c))"

text \<open>
  An array reached through a pointer is a function from the index to the
  element. \<open>sort3_at p i j k\<close> is the call \<open>sort3(p[i], p[j], p[k])\<close>.
\<close>

definition sort3_at ::
  "(nat \<Rightarrow> LumaIdxPair) \<Rightarrow> nat \<Rightarrow> nat \<Rightarrow> nat \<Rightarrow> (nat \<Rightarrow> LumaIdxPair)" where
  "sort3_at p i j k =
     (let (a, b, c) = sort3 (p i) (p j) (p k) in p(i := a, j := b, k := c))"

definition sort9 :: "(nat \<Rightarrow> LumaIdxPair) \<Rightarrow> (nat \<Rightarrow> LumaIdxPair)" where
  "sort9 p0 =
     (let p1 = sort3_at p0 0 1 2;
          p2 = sort3_at p1 3 4 5;
          p3 = sort3_at p2 6 7 8;
          p4 = p3(6 := max3 (p3 0) (p3 3) (p3 6));
          p5 = p4(2 := min3 (p4 2) (p4 5) (p4 8));
          p6 = sort3_at p5 1 4 7
      in sort3_at p6 2 4 6)"


section \<open>Median filter: the tile and the per-thread filter\<close>

text \<open>
  \<open>Float3\<close> is the three-component vector of \<open>linear_math.h\<close>, a header
  that is not among the sources. Its components are named \<open>x\<close>, \<open>y\<close>
  and \<open>z\<close> there; the selectors carry a prefix so that they do not take
  these names from the variables of the theorems.
\<close>

datatype Float3 = Float3 (f3_x: real) (f3_y: real) (f3_z: real)

definition add3 :: "Float3 \<Rightarrow> Float3 \<Rightarrow> Float3" where
  \<comment> \<open>Modelled from the spec: the operator \<open>+\<close> of \<open>Float3\<close>, declared in \<open>linear_math.h\<close>, which is not among the sources;
      the sum per component, as the spec's additive blends need.\<close>
  "add3 a b = Float3 (f3_x a + f3_x b) (f3_y a + f3_y b) (f3_z a + f3_z b)"

definition sub3 :: "Float3 \<Rightarrow> Float3 \<Rightarrow> Float3" where
  \<comment> \<open>Modelled from the spec: the operator \<open>-\<close> of \<open>Float3\<close>, from the same header;
      the difference per component.\<close>
  "sub3 a b = Float3 (f3_x a - f3_x b) (f3_y a - f3_y b) (f3_z a - f3_z b)"

definition smul3 :: "real \<Rightarrow> Float3 \<Rightarrow> Float3" where
  \<comment> \<open>Modelled from the spec: the operator \<open>*\<close> of a float and a \<open>Float3\<close>, from the same
      header; every component is scaled.\<close>
  "smul3 w a = Float3 (w * f3_x a) (w * f3_y a) (w * f3_z a)"

definition dot :: "Float3 \<Rightarrow> Float3 \<Rightarrow> real" where
  \<comment> \<open>Modelled from the spec: \<open>dot\<close>, from the same header; the spec has \<open>dot(t, t)\<close> as the
      squared distance of the two normals.\<close>
  "dot a b = f3_x a * f3_x b + f3_y a * f3_y b + f3_z a * f3_z b"

definition min1f :: "real \<Rightarrow> real \<Rightarrow> real" where
  \<comment> \<open>Modelled from the spec: \<open>min1f\<close>, from the same header: the smaller of two floats,
      which keeps each falloff, and so the spec's weight, within \<open>[0, 1]\<close>.\<close>
  "min1f a b = (if a < b then a else b)"

definition lerp3f :: "Float3 \<Rightarrow> Float3 \<Rightarrow> real \<Rightarrow> Float3" where
  \<comment> \<open>Modelled from the spec: \<open>lerp3f\<close> is declared in \<open>linear_math.h\<close>, which is not
      among the sources. The spec calls it \<open>lerp\<close>, linear interpolation from the first
      argument (weight 0) to the second (weight 1).\<close>
  "lerp3f a b w = add3 a (smul3 w (sub3 b a))"

text \<open>One element of the shared tile: the local struct \<open>LDS\<close> of the kernel.\<close>

record LDS =
  color :: Float3
  depth :: real
  normal :: Float3
  mask :: "16 word"

text \<open>
  The kernel constants \<open>blockdim\<close>, \<open>ldsBlockdim\<close>, \<open>ldsAccessOffset\<close> and
  \<open>kernelDim\<close>.
\<close>

definition blockdim :: nat where "blockdim = 8"
definition ldsBlockdim :: nat where "ldsBlockdim = 10"
definition ldsAccessOffset :: nat where "ldsAccessOffset = 1"
definition kernelDim :: nat where "kernelDim = 3"

text \<open>
  The part of \<open>MedianFilter\<close> after the barrier, for the thread
  \<open>(tx, ty)\<close> of a block, on the tile \<open>sharedBuffer\<close> as the loads left it.
  \<open>GetLuma\<close> and \<open>RayMax\<close> are declared in headers that are not among the
  sources and are parameters of the model.

  The two unrolled loops fill entry \<open>j + i * kernelDim\<close> of
  \<open>neighbourLumaIdx\<close>, for \<open>i, j < kernelDim\<close>, from the tile element
  \<open>threadIdx.x + j + (threadIdx.y + i) * ldsBlockdim\<close>; entry \<open>n\<close> has
  \<open>j = n mod kernelDim\<close> and \<open>i = n div kernelDim\<close>.
\<close>

definition neighbourIndex :: "nat \<Rightarrow> nat \<Rightarrow> nat \<Rightarrow> nat" where
  "neighbourIndex tx ty n = tx + n mod kernelDim + (ty + n div kernelDim) * ldsBlockdim"

definition neighbourLumaIdx ::
  "(Float3 \<Rightarrow> real) \<Rightarrow> (nat \<Rightarrow> LDS) \<Rightarrow> nat \<Rightarrow> nat \<Rightarrow> (nat \<Rightarrow> LumaIdxPair)" where
  "neighbourLumaIdx GetLuma sharedBuffer tx ty n =
     \<lparr>luma = GetLuma (color (sharedBuffer (neighbourIndex tx ty n))), idx = int n\<rparr>"

definition medianColorIdx :: "(Float3 \<Rightarrow> real) \<Rightarrow> (nat \<Rightarrow> LDS) \<Rightarrow> nat \<Rightarrow> nat \<Rightarrow> int" where
  "medianColorIdx GetLuma sharedBuffer tx ty =
     idx (sort9 (neighbourLumaIdx GetLuma sharedBuffer tx ty) 4)"

text \<open>
  The sample the kernel takes as the median: \<open>sharedBuffer[medianColorIdx]\<close>,
  all four fields read at that index.
\<close>

definition medianSample :: "(Float3 \<Rightarrow> real) \<Rightarrow> (nat \<Rightarrow> LDS) \<Rightarrow> nat \<Rightarrow> nat \<Rightarrow> LDS" where
  "medianSample GetLuma sharedBuffer tx ty =
     sharedBuffer (nat (medianColorIdx GetLuma sharedBuffer tx ty))"

text \<open>
  The blend factor: the product of the three falloffs. \<open>expf\<close> is the
  single-precision exponential of the CUDA library, a parameter of the model.
  The exact exponential is positive; the library function is not negative and
  returns 0 where its result underflows, for a squared distance above about
  10.4.
\<close>

definition blendWeight :: "(real \<Rightarrow> real) \<Rightarrow> LDS \<Rightarrow> LDS \<Rightarrow> real" where
  "blendWeight expf center median =
     (let weight = 1;
          t = sub3 (normal center) (normal median);
          dist2 = dot t t;
          weight = weight * min1f (expf (- dist2 / 0.1)) 1;
          dist2 = depth center - depth median;
          dist2 = dist2 * dist2;
          weight = weight * min1f (expf (- dist2 / 0.1)) 1;
          dist2 = (if mask center \<noteq> mask median then 1 else 0);
          weight = weight * min1f (expf (- dist2 / 0.1)) 1
      in weight)"

definition finalBlend :: "Float3 \<Rightarrow> Float3 \<Rightarrow> real \<Rightarrow> Float3" where
  "finalBlend colorValue medianColor weight =
     lerp3f medianColor (lerp3f colorValue medianColor weight) 0.5"

text \<open>
  The thread's store, if it makes one: the pixel, the colour, the mask, and
  whether the thread found a NaN and printed its message. A thread outside
  the image and a thread whose centre has the depth of a miss return without
  a store. \<open>isnan\<close> is the test of the CUDA library, a parameter of the
  model: it tells of a channel of the blended colour whether the kernel
  finds a NaN there. When it does for one of the three channels, the thread
  prints the message and stores the colour 0 in place of the blend. The
  parameter \<open>sz\<close> is the kernel's \<open>size\<close>.
\<close>

definition MedianFilter_thread ::
  "(Float3 \<Rightarrow> real) \<Rightarrow> real \<Rightarrow> (real \<Rightarrow> real) \<Rightarrow> (real \<Rightarrow> bool) \<Rightarrow> int \<times> int \<Rightarrow> (nat \<Rightarrow> LDS) \<Rightarrow>
     nat \<times> nat \<Rightarrow> nat \<times> nat \<Rightarrow> ((int \<times> int) \<times> Float3 \<times> 16 word \<times> bool) option" where
  "MedianFilter_thread GetLuma RayMax expf isnan sz sharedBuffer blockIdx threadIdx =
     (let tx = fst threadIdx; ty = snd threadIdx;
          x = int (tx + fst blockIdx * blockdim);
          y = int (ty + snd blockIdx * blockdim)
      in if x \<ge> fst sz \<or> y \<ge> snd sz then None
         else
           let center = sharedBuffer (tx + ldsAccessOffset + (ty + ldsAccessOffset) * ldsBlockdim)
           in if depth center \<ge> RayMax then None
              else
                let median = medianSample GetLuma sharedBuffer tx ty;
                    weight = blendWeight expf center median;
                    finalColor = finalBlend (color center) (color median) weight;
                    nanFound = (isnan (f3_x finalColor) \<or> isnan (f3_y finalColor) \<or>
                                isnan (f3_z finalColor));
                    finalColor = (if nanFound then Float3 0 0 0 else finalColor)
                in Some ((x, y), finalColor, mask center, nanFound))"

text \<open>
  The largest component of a colour; \<open>Histogram2\<close> and \<open>BloomGuassian\<close>
  take it as the luminance.
\<close>

definition getmax :: "Float3 \<Rightarrow> real" where
  \<comment> \<open>Modelled from the spec: \<open>Float3::getmax\<close> is declared in \<open>linear_math.h\<close>, which is not among the sources; the spec has the
      luminance of the histogram as the maximum channel value.\<close>
  "getmax c = max (f3_x c) (max (f3_y c) (f3_z c))"

text \<open>
  A tile for the examples: every element has luminance 1, except the elements
  22 and 4, which have luminance 1000. Element 22 is the last neighbour of
  thread \<open>(0, 0)\<close>; element 4 lies in row 0, column 4 of the tile.
\<close>

definition exampleTile :: "nat \<Rightarrow> LDS" where
  "exampleTile n =
     (if n = 4 \<or> n = 22
      then \<lparr>color = Float3 1000 1000 1000, depth = 1, normal = Float3 0 0 1, mask = 0\<rparr>
      else \<lparr>color = Float3 1 1 1, depth = 1, normal = Float3 0 0 1, mask = 0\<rparr>)"

text \<open>Two samples that differ in colour only, for the examples of the blend.\<close>

definition blackSample :: LDS where
  "blackSample = \<lparr>color = Float3 0 0 0, depth = 1, normal = Float3 0 0 1, mask = 0\<rparr>"

definition whiteSample :: LDS where
  "whiteSample = \<lparr>color = Float3 1 1 1, depth = 1, normal = Float3 0 0 1, mask = 0\<rparr>"

section \<open>Histogram and auto exposure\<close>

definition clampf :: "real \<Rightarrow> real \<Rightarrow> real \<Rightarrow> real" where
  \<comment> \<open>Modelled from the spec: \<open>clampf\<close> is declared in \<open>linear_math.h\<close>, which is not
      among the sources. The spec has it clamp its first argument to the interval of
      the other two.\<close>
  "clampf a lo hi = (if a < lo then lo else if a > hi then hi else a)"

definition BinToLum :: "nat \<Rightarrow> real" where
  "BinToLum i = 2 powr ((real i / (63 * 0.99999) - 0.75) / 0.1)"

definition darkThreshold :: real where "darkThreshold = 0.4"
definition brightThreshold :: real where "brightThreshold = 0.9"

text \<open>The four accumulators of \<open>AutoExposure\<close> that its two loops update.\<close>

record AccuState =
  lumiSum :: real
  lumiSumArea :: real
  accuHistArea :: real
  brightLum :: real

text \<open>
  The histogram is the array of 64 unsigned counters behind the pointer. Each
  loop is a function of the loop variable \<open>i\<close> and the accumulators, and
  returns both as the loop leaves them: after a \<open>break\<close> the variable keeps
  the index of the bucket that crossed the threshold.
\<close>

function darkLoop :: "(nat \<Rightarrow> 32 word) \<Rightarrow> real \<Rightarrow> nat \<Rightarrow> AccuState \<Rightarrow> nat \<times> AccuState" where
  "darkLoop histogram area i s =
     (if i < 64 then
        (let hist = histogram i;
             fHist = real (unat hist) / area;
             lum = BinToLum i;
             accu = accuHistArea s + fHist;
             dark = accu - darkThreshold
         in if dark > 0
            then (i, s\<lparr>accuHistArea := accu,
                       lumiSumArea := lumiSumArea s + dark,
                       lumiSum := lumiSum s + dark * lum\<rparr>)
            else darkLoop histogram area (i + 1) (s\<lparr>accuHistArea := accu\<rparr>))
      else (i, s))"
  by pat_completeness auto
termination
  by (relation "measure (\<lambda>(histogram, area, i, s). 64 - i)") auto

function brightLoop :: "(nat \<Rightarrow> 32 word) \<Rightarrow> real \<Rightarrow> nat \<Rightarrow> AccuState \<Rightarrow> nat \<times> AccuState" where
  "brightLoop histogram area i s =
     (if i < 64 then
        (let hist = histogram i;
             fHist = real (unat hist) / area;
             lum = BinToLum i;
             accu = accuHistArea s + fHist;
             bright = accu - brightThreshold
         in if bright > 0
            then (let partial = brightThreshold - (accu - fHist)
                  in (i, s\<lparr>accuHistArea := accu,
                            lumiSumArea := lumiSumArea s + partial,
                            lumiSum := lumiSum s + partial * lum,
                            brightLum := lum\<rparr>))
            else brightLoop histogram area (i + 1)
                   (s\<lparr>accuHistArea := accu,
                      lumiSumArea := lumiSumArea s + fHist,
                      lumiSum := lumiSum s + fHist * lum\<rparr>))
      else (i, s))"
  by pat_completeness auto
termination
  by (relation "measure (\<lambda>(histogram, area, i, s). 64 - i)") auto

declare darkLoop.simps [simp del]
declare brightLoop.simps [simp del]

text \<open>The two scans of the histogram, from the initial accumulators.\<close>

definition scanHistogram :: "(nat \<Rightarrow> 32 word) \<Rightarrow> real \<Rightarrow> nat \<times> AccuState" where
  "scanHistogram histogram area =
     (let s0 = \<lparr>lumiSum = 0, lumiSumArea = 0, accuHistArea = 0, brightLum = 0\<rparr>;
          (i1, s1) = darkLoop histogram area 0 s0
      in brightLoop histogram area i1 s1)"

text \<open>
  The kernel, in exact arithmetic. \<open>exposure\<close> is the array of the exposure
  state: the exposure value at 0, the smoothed average luminance at 1, the
  smoothed bright luminance at 2. The result is the array after the three
  writes. The quotient \<open>lumiSum / lumiSumArea\<close> is the kernel's where the
  divisor is not 0; on a histogram with no accepted mass the kernel divides 0
  by 0, and the theorems on the average take a histogram whose accepted mass
  is positive. What the roundings of the kernel do to the eye adaption is the
  subject of the next section.
\<close>

definition AutoExposure ::
  "(nat \<Rightarrow> real) \<Rightarrow> (nat \<Rightarrow> 32 word) \<Rightarrow> real \<Rightarrow> real \<Rightarrow> (nat \<Rightarrow> real)" where
  "AutoExposure exposure histogram area deltaTime =
     (let (i, s) = scanHistogram histogram area;
          aveLum = lumiSum s / lumiSumArea s;
          aveLum = clampf aveLum 0.1 10.0;
          lumTemp = exposure 1;
          lumBrightTemp = exposure 2;
          lumTemp = lumTemp + (aveLum - lumTemp) * (1.0 - exp (- deltaTime * 0.001));
          lumBrightTemp =
            lumBrightTemp + (brightLum s - lumBrightTemp) * (1.0 - exp (- deltaTime * 0.001));
          EC = 1.03 - 2.0 / (log 10 (lumTemp + 1.0) + 2.0);
          EV = 7.0 * EC / lumTemp
      in exposure(0 := EV, 1 := lumTemp, 2 := lumBrightTemp))"

text \<open>
  The two values the eye adaption moves toward, as the kernel computes them
  from the histogram: the average luminance of the frame after the clamp, and
  the luminance of the bright cut.
\<close>

definition instantAveLum :: "(nat \<Rightarrow> 32 word) \<Rightarrow> real \<Rightarrow> real" where
  "instantAveLum histogram area =
     (let s = snd (scanHistogram histogram area);
          aveLum = lumiSum s / lumiSumArea s
      in clampf aveLum 0.1 10.0)"

definition instantBrightLum :: "(nat \<Rightarrow> 32 word) \<Rightarrow> real \<Rightarrow> real" where
  "instantBrightLum histogram area = brightLum (snd (scanHistogram histogram area))"

text \<open>
  The exposure state as \<open>RayTracer::init\<close> uploads it:
  \<open>initExposureLum = {0, 1, 1, 0}\<close>.
\<close>

definition initExposureLum :: "nat \<Rightarrow> real" where
  "initExposureLum i = (if i = 1 \<or> i = 2 then 1 else 0)"

text \<open>
  The normalized cumulative mass of the histogram up to and including bucket
  \<open>k\<close>.
\<close>

definition cumulativeMass :: "(nat \<Rightarrow> 32 word) \<Rightarrow> real \<Rightarrow> nat \<Rightarrow> real" where
  "cumulativeMass histogram area k = (\<Sum>i\<le>k. real (unat (histogram i)) / area)"

text \<open>A frame whose pixels all fall into bucket 0, the darkest: 64 pixels.\<close>

definition darkHistogram :: "nat \<Rightarrow> 32 word" where
  "darkHistogram i = (if i = 0 then 64 else 0)"

text \<open>A frame of 64 pixels with one pixel in every bucket.\<close>

definition uniformHistogram :: "nat \<Rightarrow> 32 word" where
  "uniformHistogram i = 1"

section \<open>The eye adaption in the arithmetic of the kernel\<close>

text \<open>
  A binary32 or binary64 number is read as the real number it denotes.
  \<open>roundFloat p emin\<close> rounds a real number to the nearest number with \<open>p\<close>
  significant bits and least exponent \<open>emin\<close>, ties to the even significand:
  \<open>binade x\<close> is the exponent of \<open>x\<close>, the quantum is \<open>2\<close> to the power
  \<open>binade x - p + 1\<close>, or to the power \<open>emin - p + 1\<close> in the subnormal
  range, and \<open>rne\<close> rounds the quotient to an integer. \<open>fl32\<close> is the rounding
  to binary32, and \<open>fl64\<close> the rounding to binary64. The overflow to an
  infinity is left out: the numbers of this section stay below \<open>2 ^ 128\<close>.
\<close>

definition pow2 :: "int \<Rightarrow> real" where
  "pow2 k = (if 0 \<le> k then 2 ^ nat k else 1 / 2 ^ nat (- k))"

definition rne :: "real \<Rightarrow> int" where
  "rne y =
     (let f = \<lfloor>y\<rfloor>; r = y - of_int f
      in if r < 1 / 2 then f else if 1 / 2 < r then f + 1 else if even f then f else f + 1)"

definition binade :: "real \<Rightarrow> int" where
  "binade x = \<lfloor>log 2 \<bar>x\<bar>\<rfloor>"

definition roundFloat :: "nat \<Rightarrow> int \<Rightarrow> real \<Rightarrow> real" where
  "roundFloat p emin x =
     (if x = 0 then 0
      else let e = max (binade x) emin;
               q = pow2 (e - int p + 1)
           in of_int (rne (x / q)) * q)"

definition fl32 :: "real \<Rightarrow> real" where
  "fl32 = roundFloat 24 (- 126)"

definition fl64 :: "real \<Rightarrow> real" where
  "fl64 = roundFloat 53 (- 1022)"

text \<open>
  The statement of line 202,
  \<open>lumTemp = lumTemp + (aveLum - lumTemp) * (1.0 - expf(-deltaTime * 0.001))\<close>,
  with its roundings; line 203 is the same statement on \<open>lumBrightTemp\<close> and
  \<open>brightLum\<close>. The three variables are floats, and \<open>0.001\<close> and \<open>1.0\<close> are
  constants of type double. So \<open>-deltaTime * 0.001\<close> is a product of doubles,
  converted to a float for \<open>expf\<close>; the difference \<open>aveLum - lumTemp\<close> is a
  float; \<open>1.0 - expf(...)\<close>, the product and the sum are doubles; and the
  assignment rounds the sum to a float. Every operation rounds once, as
  written; a compiler that fuses the double product and sum into one
  operation drops the rounding of the product, which is exact in the example
  below. \<open>expf\<close>, the single-precision exponential of the CUDA library, is a
  parameter.
\<close>

definition eyeAdaption32 :: "(real \<Rightarrow> real) \<Rightarrow> real \<Rightarrow> real \<Rightarrow> real \<Rightarrow> real" where
  "eyeAdaption32 expf lumTemp aveLum deltaTime =
     (let x = fl32 (fl64 (- deltaTime * fl64 0.001));
          k = fl64 (1.0 - expf x);
          d = fl32 (aveLum - lumTemp);
          m = fl64 (d * k)
      in fl32 (fl64 (lumTemp + m)))"

text \<open>
  The exponential rounded to the nearest binary32 number. Where the exact
  exponential lies below half of the least subnormal number, \<open>2\<close> to the
  power \<open>-150\<close>, it is 0, which is also what the library function returns
  there.
\<close>

definition expf_rn :: "real \<Rightarrow> real" where
  "expf_rn x = fl32 (exp x)"

section \<open>Pixel coordinates and the buffer accesses of the kernels\<close>

text \<open>
  A pixel coordinate or an image size is an \<open>Int2\<close>, a pair of C \<open>int\<close>s.
  The indices of a thread and of its block, and the block dimensions, are
  pairs of natural numbers. The index arithmetic of the kernels is unsigned
  32-bit arithmetic whose result is stored in an \<open>int\<close>; the model computes
  it on the integers, which gives the same \<open>int\<close> as long as the exact
  result lies between \<open>-2^31\<close> and \<open>2^31 - 1\<close>, as it does for every grid
  over an image.
\<close>

type_synonym Int2 = "int \<times> int"

definition inBounds :: "Int2 \<Rightarrow> Int2 \<Rightarrow> bool" where
  "inBounds sz c = (0 \<le> fst c \<and> fst c < fst sz \<and> 0 \<le> snd c \<and> snd c < snd sz)"

text \<open>
  \<open>idx.x = blockIdx.x * blockDim.x + threadIdx.x\<close>, and the same for
  \<open>y\<close>: the first statements of most kernels.
\<close>

definition pixelIdx :: "nat \<times> nat \<Rightarrow> nat \<times> nat \<Rightarrow> nat \<times> nat \<Rightarrow> Int2" where
  "pixelIdx blockIdx blockDim threadIdx =
     (int (fst blockIdx * fst blockDim + fst threadIdx),
      int (snd blockIdx * snd blockDim + snd threadIdx))"





section \<open>The copy to the render target\<close>

definition clamp3f :: "Float3 \<Rightarrow> Float3 \<Rightarrow> Float3 \<Rightarrow> Float3" where
  \<comment> \<open>Modelled from the spec: \<open>clamp3f\<close> is declared in \<open>linear_math.h\<close>, which is not
      among the sources. The spec has it clamp each channel to the interval of the
      bounds.\<close>
  "clamp3f a lo hi =
     Float3 (clampf (f3_x a) (f3_x lo) (f3_x hi))
            (clampf (f3_y a) (f3_y lo) (f3_y hi))
            (clampf (f3_z a) (f3_z lo) (f3_z hi))"

text \<open>
  \<open>make_uchar4\<close> takes four \<open>unsigned char\<close>; the kernel passes floats, which
  C converts by dropping the fraction. The value is then kept in 8 bits.
\<close>

definition float_to_uchar :: "real \<Rightarrow> 8 word" where
  "float_to_uchar v = word_of_int (if 0 \<le> v then \<lfloor>v\<rfloor> else \<lceil>v\<rceil>)"

type_synonym uchar4 = "8 word \<times> 8 word \<times> 8 word \<times> 8 word"

definition make_uchar4 :: "real \<Rightarrow> real \<Rightarrow> real \<Rightarrow> real \<Rightarrow> uchar4" where
  "make_uchar4 r g b a = (float_to_uchar r, float_to_uchar g, float_to_uchar b, float_to_uchar a)"

text \<open>
  The write of a thread of \<open>CopyToOutput\<close>, if it makes one: the arguments of
  \<open>surf2Dwrite\<close>, which are the byte offset \<open>idx.x * 4\<close> in the row, the row
  \<open>idx.y\<close>, and the four bytes. \<open>outputResColor\<close> gives the first three
  channels of the buffer at a coordinate.
\<close>

definition CopyToOutput_thread ::
  "(Int2 \<Rightarrow> Float3) \<Rightarrow> Int2 \<Rightarrow> nat \<times> nat \<Rightarrow> nat \<times> nat \<Rightarrow> nat \<times> nat \<Rightarrow> (int \<times> int \<times> uchar4) option" where
  "CopyToOutput_thread outputResColor outSize blockIdx blockDim threadIdx =
     (let idx = pixelIdx blockIdx blockDim threadIdx
      in if fst idx \<ge> fst outSize \<or> snd idx \<ge> snd outSize then None
         else
           let sampledColor = outputResColor idx;
               sampledColor = clamp3f sampledColor (Float3 0 0 0) (Float3 1 1 1)
           in Some (fst idx * 4, snd idx,
                    make_uchar4 (f3_x sampledColor * 255 + 0.5)
                                (f3_y sampledColor * 255 + 0.5)
                                (f3_z sampledColor * 255 + 0.5)
                                1.0))"

text \<open>A buffer for the examples: every pixel has the colour \<open>(1, 0.5, 2)\<close>.\<close>

definition exampleBuffer :: "Int2 \<Rightarrow> Float3" where
  "exampleBuffer c = Float3 1 0.5 2"

section \<open>The shared tiles and the block barrier\<close>

text \<open>
  What a thread does to the shared tile of its block, in program order: it
  writes an element, it reads an element, or it executes \<open>__syncthreads()\<close>.
\<close>

datatype 'a tileEvent = TileWrite 'a | TileRead 'a | Barrier

text \<open>
  \<open>DownScale4\<close>: the tile is \<open>sharedBuffer[8][8]\<close>, an element is a pair of
  indices. Thread \<open>(tx, ty)\<close> writes its own element; where both indices are
  even it reads a 2 by 2 square and writes the sum to its own element; where
  both are multiples of 4 it reads four elements two apart. The kernel has no
  \<open>__syncthreads()\<close>.
\<close>

definition DownScale4_events :: "nat \<times> nat \<Rightarrow> (nat \<times> nat) tileEvent list" where
  "DownScale4_events threadIdx =
     (let tx = fst threadIdx; ty = snd threadIdx
      in [TileWrite (tx, ty)] @
         (if tx mod 2 = 0 \<and> ty mod 2 = 0
          then [TileRead (tx, ty), TileRead (tx + 1, ty), TileRead (tx, ty + 1),
                TileRead (tx + 1, ty + 1), TileWrite (tx, ty)]
          else []) @
         (if tx mod 4 = 0 \<and> ty mod 4 = 0
          then [TileRead (tx, ty), TileRead (tx + 2, ty), TileRead (tx, ty + 2),
                TileRead (tx + 2, ty + 2)]
          else []))"

text \<open>
  \<open>BloomGuassian\<close>: the tile is \<open>sharedBuffer[16][16]\<close>. Every thread writes
  its own element; a thread of the two-pixel border returns; the others
  execute the barrier and read the 25 elements around their own.
\<close>

definition BloomGuassian_events :: "nat \<times> nat \<Rightarrow> (nat \<times> nat) tileEvent list" where
  "BloomGuassian_events threadIdx =
     (let tx = fst threadIdx; ty = snd threadIdx
      in TileWrite (tx, ty) #
         (if tx < 2 \<or> ty < 2 \<or> tx > 13 \<or> ty > 13 then []
          else Barrier # map (\<lambda>i. TileRead (tx + i mod 5 - 2, ty + i div 5 - 2)) [0..<25]))"

text \<open>
  \<open>MedianFilter\<close>: the tile is the array \<open>sharedBuffer\<close> of 100 elements.
  Every thread writes element \<open>id\<close>, the first 36 threads write element
  \<open>id + 64\<close> as well, and every thread executes the barrier. A thread inside
  the image then reads its centre, and, unless the centre is a miss, its nine
  neighbours and, four times, the element at the median index.
\<close>

definition MedianFilter_events ::
  "(Float3 \<Rightarrow> real) \<Rightarrow> real \<Rightarrow> Int2 \<Rightarrow> (nat \<Rightarrow> LDS) \<Rightarrow> nat \<times> nat \<Rightarrow> nat \<times> nat \<Rightarrow> nat tileEvent list" where
  "MedianFilter_events GetLuma RayMax sz sharedBuffer blockIdx threadIdx =
     (let tx = fst threadIdx; ty = snd threadIdx;
          x = int (tx + fst blockIdx * blockdim);
          y = int (ty + snd blockIdx * blockdim);
          id = tx + ty * blockdim;
          centerIdx = tx + ldsAccessOffset + (ty + ldsAccessOffset) * ldsBlockdim
      in [TileWrite id] @
         (if id + blockdim * blockdim < ldsBlockdim * ldsBlockdim
          then [TileWrite (id + blockdim * blockdim)] else []) @
         [Barrier] @
         (if x \<ge> fst sz \<or> y \<ge> snd sz then []
          else TileRead centerIdx #
            (if depth (sharedBuffer centerIdx) \<ge> RayMax then []
             else map (\<lambda>n. TileRead (neighbourIndex tx ty n)) [0..<9] @
                  replicate 4 (TileRead (nat (medianColorIdx GetLuma sharedBuffer tx ty))))))"

text \<open>
  The accesses of a thread, each with the number of barriers the thread has
  executed before it.
\<close>

fun phases :: "nat \<Rightarrow> 'a tileEvent list \<Rightarrow> (nat \<times> 'a tileEvent) list" where
  "phases n [] = []"
| "phases n (Barrier # es) = phases (Suc n) es"
| "phases n (TileWrite a # es) = (n, TileWrite a) # phases n es"
| "phases n (TileRead a # es) = (n, TileRead a) # phases n es"

definition barriers :: "'a tileEvent list \<Rightarrow> nat" where
  "barriers es = length (filter (\<lambda>e. e = Barrier) es)"

definition writesOf :: "'a tileEvent list \<Rightarrow> (nat \<times> 'a) list" where
  "writesOf es = concat (map (\<lambda>(p, e). case e of TileWrite a \<Rightarrow> [(p, a)] | _ \<Rightarrow> []) (phases 0 es))"

definition readsOf :: "'a tileEvent list \<Rightarrow> (nat \<times> 'a) list" where
  "readsOf es = concat (map (\<lambda>(p, e). case e of TileRead a \<Rightarrow> [(p, a)] | _ \<Rightarrow> []) (phases 0 es))"

text \<open>
  The threads of a block execute every barrier together: all of them execute
  the same number of barriers.
\<close>

definition barriersByAll :: "('t \<Rightarrow> 'a tileEvent list) \<Rightarrow> 't list \<Rightarrow> bool" where
  "barriersByAll events threads =
     list_all (\<lambda>t. barriers (events t) = barriers (events (hd threads))) threads"

text \<open>
  A read by one thread of an element that another thread writes comes after
  a barrier that the write comes before: the write has fewer barriers before
  it than the read.
\<close>

definition readsAfterWrites :: "('t \<Rightarrow> 'a tileEvent list) \<Rightarrow> 't list \<Rightarrow> bool" where
  "readsAfterWrites events threads =
     list_all (\<lambda>t. list_all (\<lambda>u. t = u \<or>
        list_all (\<lambda>(p, a). list_all (\<lambda>(q, b). if a = b then q < p else True)
                                    (writesOf (events u)))
                 (readsOf (events t))) threads) threads"

definition barrierSeparated :: "('t \<Rightarrow> 'a tileEvent list) \<Rightarrow> 't list \<Rightarrow> bool" where
  "barrierSeparated events threads =
     (barriersByAll events threads \<and> readsAfterWrites events threads)"

text \<open>The threads of a block of \<open>w\<close> by \<open>h\<close> threads.\<close>

definition blockThreads :: "nat \<Rightarrow> nat \<Rightarrow> (nat \<times> nat) list" where
  "blockThreads w h = List.product [0..<w] [0..<h]"

section \<open>Lens flare\<close>

text \<open>
  \<open>Float2\<close> and the helpers \<open>length\<close>, \<open>fract\<close>, \<open>smoothstep1f\<close> and
  \<open>cos3f\<close> come from \<open>linear_math.h\<close>, which is not among the sources; the
  spec speaks of them as closed-form distance functions and a hash. They are
  given the meaning their names have in the shading languages. The operators
  of the vector types are named functions here: \<open>add2\<close> and \<open>sub2\<close> for two
  vectors, \<open>mul2\<close> and \<open>div2\<close> for a vector and a scalar, \<open>adds2\<close> and
  \<open>adds3\<close> for a scalar added to every component. \<open>powf\<close>, \<open>sinf\<close>,
  \<open>cosf\<close> and \<open>floorf\<close> are the real functions; every base of a power in
  this kernel is non-negative.
\<close>

datatype Float2 = Float2 (f2_x: real) (f2_y: real)

definition add2 :: "Float2 \<Rightarrow> Float2 \<Rightarrow> Float2" where
  \<comment> \<open>Modelled from the spec: the operator \<open>+\<close> of two \<open>Float2\<close>: the sum per component (\<open>linear_math.h\<close>, not among the sources).\<close>
  "add2 a b = Float2 (f2_x a + f2_x b) (f2_y a + f2_y b)"

definition sub2 :: "Float2 \<Rightarrow> Float2 \<Rightarrow> Float2" where
  \<comment> \<open>Modelled from the spec: the operator \<open>-\<close> of two \<open>Float2\<close>: the difference per component (\<open>linear_math.h\<close>, not among the sources).\<close>
  "sub2 a b = Float2 (f2_x a - f2_x b) (f2_y a - f2_y b)"

definition mul2 :: "Float2 \<Rightarrow> real \<Rightarrow> Float2" where
  \<comment> \<open>Modelled from the spec: the operator \<open>*\<close> of a \<open>Float2\<close> and a float: every component is scaled (\<open>linear_math.h\<close>, not among the sources).\<close>
  "mul2 a w = Float2 (f2_x a * w) (f2_y a * w)"

definition div2 :: "Float2 \<Rightarrow> real \<Rightarrow> Float2" where
  \<comment> \<open>Modelled from the spec: the operator \<open>/\<close> of a \<open>Float2\<close> and a float: every component is divided (\<open>linear_math.h\<close>, not among the sources).\<close>
  "div2 a w = Float2 (f2_x a / w) (f2_y a / w)"

definition adds2 :: "Float2 \<Rightarrow> real \<Rightarrow> Float2" where
  \<comment> \<open>Modelled from the spec: the operator \<open>+\<close> of a \<open>Float2\<close> and a float: the float is added to every component (\<open>linear_math.h\<close>, not among the sources).\<close>
  "adds2 a w = Float2 (f2_x a + w) (f2_y a + w)"

definition length2 :: "Float2 \<Rightarrow> real" where
  \<comment> \<open>Modelled from the spec: \<open>length\<close> of a \<open>Float2\<close>: the Euclidean length, the distance of the spec's distance functions (\<open>linear_math.h\<close>, not among the sources).\<close>
  "length2 a = sqrt (f2_x a * f2_x a + f2_y a * f2_y a)"

definition adds3 :: "Float3 \<Rightarrow> real \<Rightarrow> Float3" where
  \<comment> \<open>Modelled from the spec: the operator \<open>+\<close> of a \<open>Float3\<close> and a float: the float is added to every component (\<open>linear_math.h\<close>, not among the sources).\<close>
  "adds3 a w = Float3 (f3_x a + w) (f3_y a + w) (f3_z a + w)"

definition cos3f :: "Float3 \<Rightarrow> Float3" where
  \<comment> \<open>Modelled from the spec: \<open>cos3f\<close>: the cosine per component (\<open>linear_math.h\<close>, not among the sources).\<close>
  "cos3f a = Float3 (cos (f3_x a)) (cos (f3_y a)) (cos (f3_z a))"

definition fract :: "real \<Rightarrow> real" where
  \<comment> \<open>Modelled from the spec: \<open>fract\<close>: the fractional part, which makes the spec's hash of a small integer index (\<open>linear_math.h\<close>, not among the sources).\<close>
  "fract a = a - of_int \<lfloor>a\<rfloor>"

definition smoothstep1f :: "real \<Rightarrow> real \<Rightarrow> real \<Rightarrow> real" where
  \<comment> \<open>Modelled from the spec: \<open>smoothstep1f\<close>: the cubic step from 0 at the first edge to 1 at the second (\<open>linear_math.h\<close>, not among the sources).\<close>
  "smoothstep1f edge0 edge1 a =
     (let t = clampf ((a - edge0) / (edge1 - edge0)) 0 1 in t * t * (3 - 2 * t))"

definition TWO_PI :: real where
  \<comment> \<open>Modelled from the spec: the constant \<open>TWO_PI\<close> (\<open>linear_math.h\<close>, not among the sources).\<close>
  "TWO_PI = 2 * pi"

text \<open>\<open>atan2f(y, x)\<close> of the CUDA math library: the angle of the point \<open>(x, y)\<close>.\<close>

definition atan2f :: "real \<Rightarrow> real \<Rightarrow> real" where
  "atan2f y x =
     (if 0 < x then arctan (y / x)
      else if x < 0 \<and> 0 \<le> y then arctan (y / x) + pi
      else if x < 0 then arctan (y / x) - pi
      else if 0 < y then pi / 2
      else if y < 0 then - pi / 2
      else 0)"

definition LensFlareRand :: "real \<Rightarrow> real" where
  "LensFlareRand w = fract (sin w * 1000)"

definition LensFlareRegShape :: "Float2 \<Rightarrow> int \<Rightarrow> real" where
  "LensFlareRegShape p N =
     (let a = atan2f (f2_x p) (f2_y p) + 0.2;
          b = TWO_PI / of_int N;
          f = smoothstep1f 0.5 0.51 (cos (of_int \<lfloor>0.5 + a / b\<rfloor> * b - a) * length2 p)
      in f)"

text \<open>
  The four terms of a flare element: the big circle \<open>c\<close>, the ring \<open>c1\<close>,
  the dot \<open>c2\<close> and the hexagon \<open>s\<close>. The parameters \<open>sz\<close> and \<open>dst\<close> are
  the source's \<open>size\<close> and \<open>dist\<close>.
\<close>

definition flareTerms :: "Float2 \<Rightarrow> real \<Rightarrow> real \<Rightarrow> Float2 \<Rightarrow> real \<times> real \<times> real \<times> real" where
  "flareTerms p sz dst mouse =
     (let l = length2 (add2 p (mul2 mouse (dst * 4.0))) + sz / 2.0;
          c = max (0.01 - (length2 (add2 p (mul2 mouse dst))) powr (sz * 1.4)) 0 * 30;
          c1 = max (0.001 - (l - 0.3) powr (1.0 / 40.0) + sin (l * 30)) 0 * 3;
          c2 = max (0.04 / ((length2 (adds2 (sub2 p (div2 (mul2 mouse dst) 2.0)) 0.09) * 1.0) powr 1.0)) 0 / 20;
          s = max (0.01 - (LensFlareRegShape
                 (adds2 (add2 (mul2 p 5.0) (mul2 (mul2 mouse dst) 5.0)) 0.9) 6) powr 1.0) 0 * 6
      in (c, c1, c2, s))"

definition flareColor :: "real \<Rightarrow> Float3" where
  "flareColor dst =
     adds3 (smul3 0.5 (cos3f (adds3 (smul3 8.0 (Float3 0.44 0.24 0.2)) (dst * 4.0)))) 0.5"

definition LensFlareCircle :: "Float2 \<Rightarrow> real \<Rightarrow> real \<Rightarrow> Float2 \<Rightarrow> Float3" where
  "LensFlareCircle p sz dst mouse =
     (let (c, c1, c2, s) = flareTerms p sz dst mouse;
          color = flareColor dst;
          f = smul3 c color;
          f = add3 f (smul3 c1 color);
          f = add3 f (smul3 c2 color);
          f = add3 f (smul3 s color)
      in adds3 f (- 0.01))"

text \<open>
  The coordinate \<open>uv\<close> of a pixel, the two arguments that the loop of
  \<open>LensFlare\<close> computes for element \<open>i\<close>, and the two terms of the sun.
\<close>

definition flareUv :: "Int2 \<Rightarrow> Int2 \<Rightarrow> Float2" where
  "flareUv sz pix =
     (let uv = Float2 (of_int (fst pix) / of_int (fst sz)) (of_int (snd pix) / of_int (snd sz));
          uv = sub2 uv (Float2 0.5 0.5)
      in Float2 (f2_x uv * (of_int (fst sz) / of_int (snd sz))) (f2_y uv))"

definition flareSize :: "nat \<Rightarrow> real" where
  "flareSize i = (LensFlareRand (real i * 2000) * 1.8) powr 2 + 1.41"

definition flareDist :: "nat \<Rightarrow> real" where
  "flareDist i = LensFlareRand (real i * 20) * 3 + 0.2 - 0.5"

definition sunGlow1 :: "real \<Rightarrow> real \<Rightarrow> real" where
  "sunGlow1 len angle =
     max (0.1 / max ((len * 10) powr 5) 0.0001) 0 * \<bar>sin (angle * 5 + cos (angle * 9))\<bar> / 20"

definition sunGlow2 :: "real \<Rightarrow> real \<Rightarrow> real" where
  "sunGlow2 len angle =
     max (0.1 / (len * 10) powr (1 / 20)) 0
       + \<bar>sin (angle * 3 + cos (angle * 9))\<bar> / 16 * \<bar>sin (angle * 9)\<bar>"

text \<open>
  The store of a thread of \<open>LensFlare\<close>, if it makes one: the pixel and the
  colour written. \<open>colorBuffer\<close> gives the first three channels of the buffer
  at a coordinate.
\<close>

definition LensFlare_thread ::
  "Float2 \<Rightarrow> (Int2 \<Rightarrow> Float3) \<Rightarrow> Int2 \<Rightarrow> nat \<times> nat \<Rightarrow> nat \<times> nat \<Rightarrow> nat \<times> nat \<Rightarrow> (Int2 \<times> Float3) option" where
  "LensFlare_thread sunPos colorBuffer sz blockIdx blockDim threadIdx =
     (let idx = pixelIdx blockIdx blockDim threadIdx
      in if fst idx \<ge> fst sz \<or> snd idx \<ge> snd sz then None
         else
           let uv = flareUv sz idx;
               vec = sub2 uv sunPos;
               len = length2 vec;
               color = colorBuffer idx;
               color = fold (\<lambda>i color. add3 color (LensFlareCircle uv (flareSize i) (flareDist i) sunPos))
                         [0..<2] color;
               angle = atan2f (f2_y vec) (f2_x vec);
               color = adds3 color (sunGlow1 len angle);
               color = adds3 color (sunGlow2 len angle)
           in Some (idx, color))"

section \<open>Order statistics of three luminances\<close>

text \<open>
  The smallest, middle and largest of three luminances, as the three
  compare-exchange steps of \<open>sort3\<close> produce them.
\<close>

definition lo3 :: "real \<Rightarrow> real \<Rightarrow> real \<Rightarrow> real" where
  "lo3 x y z = min x (min y z)"

definition mid3 :: "real \<Rightarrow> real \<Rightarrow> real \<Rightarrow> real" where
  "mid3 x y z = min (max x (min y z)) (max y z)"

definition hi3 :: "real \<Rightarrow> real \<Rightarrow> real \<Rightarrow> real" where
  "hi3 x y z = max (max x (min y z)) (max y z)"

section \<open>The sorting network leaves the median at position 4\<close>

lemma luma_sort2:
  "luma (fst (sort2 a b)) = min (luma a) (luma b)"
  "luma (snd (sort2 a b)) = max (luma a) (luma b)"
  by (simp_all add: sort2_def swap_lp_def)

lemma luma_sort3:
  "luma (fst (sort3 a b c)) = lo3 (luma a) (luma b) (luma c)"
  "luma (fst (snd (sort3 a b c))) = mid3 (luma a) (luma b) (luma c)"
  "luma (snd (snd (sort3 a b c))) = hi3 (luma a) (luma b) (luma c)"
  by (simp_all add: sort3_def lo3_def mid3_def hi3_def split_beta luma_sort2 Let_def)

lemma sort3_at_nth:
  assumes "i \<noteq> j" "i \<noteq> k" "j \<noteq> k"
  shows "sort3_at p i j k i = fst (sort3 (p i) (p j) (p k))"
    and "sort3_at p i j k j = fst (snd (sort3 (p i) (p j) (p k)))"
    and "sort3_at p i j k k = snd (snd (sort3 (p i) (p j) (p k)))"
    and "n \<noteq> i \<Longrightarrow> n \<noteq> j \<Longrightarrow> n \<noteq> k \<Longrightarrow> sort3_at p i j k n = p n"
  using assms by (simp_all add: sort3_at_def split_beta)

lemma luma_min3: "luma (min3 a b c) = min (min (luma a) (luma b)) (luma c)"
  by (simp add: min3_def min_lp_def min_def)

lemma luma_max3: "luma (max3 a b c) = max (max (luma a) (luma b)) (luma c)"
  by (simp add: max3_def max_lp_def max_def)

text \<open>
  The luminance left at position 4, as a min/max expression of the nine input
  luminances: the middle of (the least of the row maxima, the middle of the
  row middles, the greatest of the row minima).
\<close>

lemma luma_sort9_4:
  "luma (sort9 p 4) =
     mid3 (min (min (hi3 (luma (p 0)) (luma (p 1)) (luma (p 2)))
                    (hi3 (luma (p 3)) (luma (p 4)) (luma (p 5))))
               (hi3 (luma (p 6)) (luma (p 7)) (luma (p 8))))
          (mid3 (mid3 (luma (p 0)) (luma (p 1)) (luma (p 2)))
                (mid3 (luma (p 3)) (luma (p 4)) (luma (p 5)))
                (mid3 (luma (p 6)) (luma (p 7)) (luma (p 8))))
          (max (max (lo3 (luma (p 0)) (luma (p 1)) (luma (p 2)))
                    (lo3 (luma (p 3)) (luma (p 4)) (luma (p 5))))
               (lo3 (luma (p 6)) (luma (p 7)) (luma (p 8))))"
  by (simp add: sort9_def Let_def sort3_at_nth luma_sort3 luma_min3 luma_max3)

lemma sorted3: "lo3 x y z \<le> mid3 x y z" "mid3 x y z \<le> hi3 x y z"
  by (auto simp: lo3_def mid3_def hi3_def min_def max_def)

lemma filter3:
  "length (filter P [lo3 x y z, mid3 x y z, hi3 x y z]) = length (filter P [x, y, z])"
  by (auto simp: lo3_def mid3_def hi3_def min_def max_def)

lemma mid3_cases:
  "(mid3 x y z = x \<and> (y \<le> x \<and> x \<le> z \<or> z \<le> x \<and> x \<le> y)) \<or>
   (mid3 x y z = y \<and> (x \<le> y \<and> y \<le> z \<or> z \<le> y \<and> y \<le> x)) \<or>
   (mid3 x y z = z \<and> (x \<le> z \<and> z \<le> y \<or> y \<le> z \<and> z \<le> x))"
  unfolding mid3_def by (auto simp: min_def max_def)

text \<open>
  With the three rows sorted, at least five of the nine values are at most the
  selected one, and at least five are at least it.
\<close>

lemma count_le_five:
  fixes l0 m0 h0 l1 m1 h1 l2 m2 h2 :: real
  assumes "l0 \<le> m0" "m0 \<le> h0" "l1 \<le> m1" "m1 \<le> h1" "l2 \<le> m2" "m2 \<le> h2"
  defines "X \<equiv> max (max l0 l1) l2" and "Z \<equiv> min (min h0 h1) h2" and "Y \<equiv> mid3 m0 m1 m2"
  defines "m \<equiv> mid3 Z Y X"
  shows "5 \<le> length (filter (\<lambda>x. x \<le> m) [l0, m0, h0, l1, m1, h1, l2, m2, h2])"
proof -
  have F1: "X \<le> m \<Longrightarrow> l0 \<le> m \<and> l1 \<le> m \<and> l2 \<le> m"
    unfolding X_def by auto
  have F2: "Y \<le> m \<Longrightarrow> (m0 \<le> m \<and> m1 \<le> m) \<or> (m0 \<le> m \<and> m2 \<le> m) \<or> (m1 \<le> m \<and> m2 \<le> m)"
    unfolding Y_def using mid3_cases[of m0 m1 m2] by auto
  have F3: "Z \<le> m \<Longrightarrow> h0 \<le> m \<or> h1 \<le> m \<or> h2 \<le> m"
    unfolding Z_def by (auto simp: min_def split: if_splits)
  have F4: "(X \<le> m \<and> Y \<le> m) \<or> (X \<le> m \<and> Z \<le> m) \<or> (Y \<le> m \<and> Z \<le> m)"
    unfolding m_def using mid3_cases[of Z Y X] by auto
  have G0: "m0 \<le> m \<Longrightarrow> l0 \<le> m" "h0 \<le> m \<Longrightarrow> m0 \<le> m"
    and G1: "m1 \<le> m \<Longrightarrow> l1 \<le> m" "h1 \<le> m \<Longrightarrow> m1 \<le> m"
    and G2: "m2 \<le> m \<Longrightarrow> l2 \<le> m" "h2 \<le> m \<Longrightarrow> m2 \<le> m"
    using assms(1-6) by auto
  define n :: "real \<Rightarrow> nat" where "n = (\<lambda>x. if x \<le> m then 1 else 0)"
  have len: "length (filter (\<lambda>x. x \<le> m) [l0, m0, h0, l1, m1, h1, l2, m2, h2]) =
      n l0 + n m0 + n h0 + n l1 + n m1 + n h1 + n l2 + n m2 + n h2"
    by (simp add: n_def)
  have n1: "x \<le> m \<Longrightarrow> n x = 1" for x by (simp add: n_def)
  from F4 show ?thesis
  proof (elim disjE conjE)
    assume "X \<le> m" "Y \<le> m"
    with F1 F2 G0 G1 G2 show ?thesis unfolding len by (auto simp: n1)
  next
    assume "X \<le> m" "Z \<le> m"
    with F1 F3 G0 G1 G2 show ?thesis unfolding len by (auto simp: n1)
  next
    assume "Y \<le> m" "Z \<le> m"
    with F2 F3 G0 G1 G2 show ?thesis unfolding len by (auto simp: n1)
  qed
qed

lemma count_ge_five:
  fixes l0 m0 h0 l1 m1 h1 l2 m2 h2 :: real
  assumes "l0 \<le> m0" "m0 \<le> h0" "l1 \<le> m1" "m1 \<le> h1" "l2 \<le> m2" "m2 \<le> h2"
  defines "X \<equiv> max (max l0 l1) l2" and "Z \<equiv> min (min h0 h1) h2" and "Y \<equiv> mid3 m0 m1 m2"
  defines "m \<equiv> mid3 Z Y X"
  shows "5 \<le> length (filter (\<lambda>x. m \<le> x) [l0, m0, h0, l1, m1, h1, l2, m2, h2])"
proof -
  have F1: "m \<le> Z \<Longrightarrow> m \<le> h0 \<and> m \<le> h1 \<and> m \<le> h2"
    unfolding Z_def by auto
  have F2: "m \<le> Y \<Longrightarrow> (m \<le> m0 \<and> m \<le> m1) \<or> (m \<le> m0 \<and> m \<le> m2) \<or> (m \<le> m1 \<and> m \<le> m2)"
    unfolding Y_def using mid3_cases[of m0 m1 m2] by auto
  have F3: "m \<le> X \<Longrightarrow> m \<le> l0 \<or> m \<le> l1 \<or> m \<le> l2"
    unfolding X_def by (auto simp: max_def split: if_splits)
  have F4: "(m \<le> Z \<and> m \<le> Y) \<or> (m \<le> Z \<and> m \<le> X) \<or> (m \<le> Y \<and> m \<le> X)"
    unfolding m_def using mid3_cases[of Z Y X] by auto
  have G0: "m \<le> m0 \<Longrightarrow> m \<le> h0" "m \<le> l0 \<Longrightarrow> m \<le> m0"
    and G1: "m \<le> m1 \<Longrightarrow> m \<le> h1" "m \<le> l1 \<Longrightarrow> m \<le> m1"
    and G2: "m \<le> m2 \<Longrightarrow> m \<le> h2" "m \<le> l2 \<Longrightarrow> m \<le> m2"
    using assms(1-6) by auto
  define n :: "real \<Rightarrow> nat" where "n = (\<lambda>x. if m \<le> x then 1 else 0)"
  have len: "length (filter (\<lambda>x. m \<le> x) [l0, m0, h0, l1, m1, h1, l2, m2, h2]) =
      n l0 + n m0 + n h0 + n l1 + n m1 + n h1 + n l2 + n m2 + n h2"
    by (simp add: n_def)
  have n1: "m \<le> x \<Longrightarrow> n x = 1" for x by (simp add: n_def)
  from F4 show ?thesis
  proof (elim disjE conjE)
    assume "m \<le> Z" "m \<le> Y"
    with F1 F2 G0 G1 G2 show ?thesis unfolding len by (auto simp: n1)
  next
    assume "m \<le> Z" "m \<le> X"
    with F1 F3 G0 G1 G2 show ?thesis unfolding len by (auto simp: n1)
  next
    assume "m \<le> Y" "m \<le> X"
    with F2 F3 G0 G1 G2 show ?thesis unfolding len by (auto simp: n1)
  qed
qed

lemma length_filter_sort:
  "length (filter P (sort xs)) = length (filter P xs)"
proof -
  have "mset (filter P (sort xs)) = mset (filter P xs)"
    by (simp only: mset_filter mset_sort)
  then show ?thesis
    by (metis size_mset)
qed

text \<open>
  A value with at least five of nine elements on either side of it is the
  element of rank 4 of the sorted list.
\<close>

lemma median_char:
  fixes xs :: "real list"
  assumes len: "length xs = 9"
    and le: "5 \<le> length (filter (\<lambda>x. x \<le> m) xs)"
    and ge: "5 \<le> length (filter (\<lambda>x. m \<le> x) xs)"
  shows "sort xs ! 4 = m"
proof -
  define s where "s = sort xs"
  have srt: "sorted s" and ls: "length s = 9"
    by (simp_all add: s_def len)
  have le': "5 \<le> length (filter (\<lambda>x. x \<le> m) s)"
    using le by (simp add: s_def length_filter_sort)
  have ge': "5 \<le> length (filter (\<lambda>x. m \<le> x) s)"
    using ge by (simp add: s_def length_filter_sort)
  have "\<not> s ! 4 < m"
  proof
    assume lt: "s ! 4 < m"
    have "\<forall>x \<in> set (take 5 s). \<not> m \<le> x"
    proof
      fix x assume "x \<in> set (take 5 s)"
      then obtain i where i: "i < 5" "x = s ! i"
        using ls by (auto simp: in_set_conv_nth)
      then have "s ! i \<le> s ! 4"
        using srt ls by (intro sorted_nth_mono) auto
      with lt i show "\<not> m \<le> x" by simp
    qed
    then have "filter (\<lambda>x. m \<le> x) (take 5 s) = []"
      by (simp add: filter_empty_conv)
    moreover have "filter (\<lambda>x. m \<le> x) s =
        filter (\<lambda>x. m \<le> x) (take 5 s) @ filter (\<lambda>x. m \<le> x) (drop 5 s)"
      by (metis append_take_drop_id filter_append)
    ultimately have "length (filter (\<lambda>x. m \<le> x) s) \<le> length (drop 5 s)"
      using length_filter_le [of "\<lambda>x. m \<le> x" "drop 5 s"] by simp
    with ls ge' show False by simp
  qed
  moreover have "\<not> m < s ! 4"
  proof
    assume lt: "m < s ! 4"
    have "\<forall>x \<in> set (drop 4 s). \<not> x \<le> m"
    proof
      fix x assume "x \<in> set (drop 4 s)"
      then obtain i where i: "i < 5" "x = s ! (4 + i)"
        using ls by (auto simp: in_set_conv_nth)
      then have "s ! 4 \<le> s ! (4 + i)"
        using srt ls by (intro sorted_nth_mono) auto
      with lt i show "\<not> x \<le> m" by simp
    qed
    then have "filter (\<lambda>x. x \<le> m) (drop 4 s) = []"
      by (simp add: filter_empty_conv)
    moreover have "filter (\<lambda>x. x \<le> m) s =
        filter (\<lambda>x. x \<le> m) (take 4 s) @ filter (\<lambda>x. x \<le> m) (drop 4 s)"
      by (metis append_take_drop_id filter_append)
    ultimately have "length (filter (\<lambda>x. x \<le> m) s) \<le> length (take 4 s)"
      using length_filter_le [of "\<lambda>x. x \<le> m" "take 4 s"] by simp
    with ls le' show False by simp
  qed
  ultimately show ?thesis
    unfolding s_def by simp
qed

lemma upt_9: "[0..<9] = [0, 1, 2, 3, 4, 5, 6, 7, 8]"
  by code_simp

lemma filter_rows:
  fixes a0 a1 a2 a3 a4 a5 a6 a7 a8 :: real
  shows "length (filter P [lo3 a0 a1 a2, mid3 a0 a1 a2, hi3 a0 a1 a2,
                            lo3 a3 a4 a5, mid3 a3 a4 a5, hi3 a3 a4 a5,
                            lo3 a6 a7 a8, mid3 a6 a7 a8, hi3 a6 a7 a8]) =
         length (filter P [a0, a1, a2, a3, a4, a5, a6, a7, a8])"
proof -
  have "length (filter P ([lo3 a0 a1 a2, mid3 a0 a1 a2, hi3 a0 a1 a2] @
                          [lo3 a3 a4 a5, mid3 a3 a4 a5, hi3 a3 a4 a5] @
                          [lo3 a6 a7 a8, mid3 a6 a7 a8, hi3 a6 a7 a8])) =
        length (filter P ([a0, a1, a2] @ [a3, a4, a5] @ [a6, a7, a8]))"
    unfolding filter_append length_append filter3 ..
  then show ?thesis by simp
qed

text \<open>
  Claim C4. For every array of nine luma-index pairs, the element that
  \<open>sort9\<close> leaves at position 4 has the luminance of rank 4 (counting
  from 0) among the nine input luminances sorted in ascending order: the
  median.
\<close>

theorem sort9_median_rank:
  "luma (sort9 p 4) = sort (map (\<lambda>i. luma (p i)) [0..<9]) ! 4"
proof -
  define a where "a = (\<lambda>i. luma (p i))"
  define m where "m = luma (sort9 p 4)"
  let ?xs = "[a 0, a 1, a 2, a 3, a 4, a 5, a 6, a 7, a 8]"
  have m_eq: "m = mid3 (min (min (hi3 (a 0) (a 1) (a 2)) (hi3 (a 3) (a 4) (a 5))) (hi3 (a 6) (a 7) (a 8)))
                       (mid3 (mid3 (a 0) (a 1) (a 2)) (mid3 (a 3) (a 4) (a 5)) (mid3 (a 6) (a 7) (a 8)))
                       (max (max (lo3 (a 0) (a 1) (a 2)) (lo3 (a 3) (a 4) (a 5))) (lo3 (a 6) (a 7) (a 8)))"
    unfolding m_def a_def by (rule luma_sort9_4)
  have "5 \<le> length (filter (\<lambda>x. x \<le> m) [lo3 (a 0) (a 1) (a 2), mid3 (a 0) (a 1) (a 2), hi3 (a 0) (a 1) (a 2),
                            lo3 (a 3) (a 4) (a 5), mid3 (a 3) (a 4) (a 5), hi3 (a 3) (a 4) (a 5),
                            lo3 (a 6) (a 7) (a 8), mid3 (a 6) (a 7) (a 8), hi3 (a 6) (a 7) (a 8)])"
    unfolding m_eq by (rule count_le_five) (rule sorted3)+
  then have le: "5 \<le> length (filter (\<lambda>x. x \<le> m) ?xs)"
    by (simp only: filter_rows)
  have "5 \<le> length (filter (\<lambda>x. m \<le> x) [lo3 (a 0) (a 1) (a 2), mid3 (a 0) (a 1) (a 2), hi3 (a 0) (a 1) (a 2),
                            lo3 (a 3) (a 4) (a 5), mid3 (a 3) (a 4) (a 5), hi3 (a 3) (a 4) (a 5),
                            lo3 (a 6) (a 7) (a 8), mid3 (a 6) (a 7) (a 8), hi3 (a 6) (a 7) (a 8)])"
    unfolding m_eq by (rule count_ge_five) (rule sorted3)+
  then have ge: "5 \<le> length (filter (\<lambda>x. m \<le> x) ?xs)"
    by (simp only: filter_rows)
  have "sort ?xs ! 4 = m"
    by (rule median_char [OF _ le ge]) simp
  moreover have "map (\<lambda>i. luma (p i)) [0..<9] = ?xs"
    unfolding upt_9 a_def by simp
  ultimately show ?thesis
    unfolding m_def by simp
qed

section \<open>The sample the median filter selects\<close>

lemma sort2_sorted: "luma a \<le> luma b \<Longrightarrow> sort2 a b = (a, b)"
  by (simp add: sort2_def)

lemma sort3_sorted: "luma a \<le> luma b \<Longrightarrow> luma b \<le> luma c \<Longrightarrow> sort3 a b c = (a, b, c)"
  by (simp add: sort3_def sort2_sorted)

lemma sort3_at_sorted:
  "luma (p i) \<le> luma (p j) \<Longrightarrow> luma (p j) \<le> luma (p k) \<Longrightarrow> sort3_at p i j k = p"
  by (simp add: sort3_at_def sort3_sorted)

text \<open>
  On eight equal luminances followed by one that is not smaller, every
  compare-exchange of the network leaves its arguments in place, and the two
  merges do not touch position 4.
\<close>

lemma sort9_outlier_last:
  assumes eq: "map (\<lambda>n. luma (p n)) [0..<9] = [v, v, v, v, v, v, v, v, w]" and vw: "v \<le> w"
  shows "sort9 p 4 = p 4"
proof -
  from eq have l: "luma (p 0) = v" "luma (p 1) = v" "luma (p 2) = v" "luma (p 3) = v"
    "luma (p 4) = v" "luma (p 5) = v" "luma (p 6) = v" "luma (p 7) = v" "luma (p 8) = w"
    "luma (p (Suc 0)) = v"
    unfolding upt_9 by simp_all
  have s1: "sort3_at p 0 1 2 = p" by (rule sort3_at_sorted) (simp_all add: l)
  have s2: "sort3_at p 3 4 5 = p" by (rule sort3_at_sorted) (simp_all add: l)
  have s3: "sort3_at p 6 7 8 = p" by (rule sort3_at_sorted) (simp_all add: l vw)
  define q where "q = p(6 := max3 (p 0) (p 3) (p 6))"
  define r where "r = q(2 := min3 (q 2) (q 5) (q 8))"
  have mx: "max3 (p 0) (p 3) (p 6) = p 6"
    by (simp add: max3_def max_lp_def l)
  have q: "q = p" unfolding q_def mx by simp
  have lr2: "luma (r 2) = v"
    unfolding r_def q by (simp add: luma_min3 l vw)
  have r_other: "\<And>n. n \<noteq> 2 \<Longrightarrow> r n = p n"
    unfolding r_def q by simp
  have s4: "sort3_at r 1 4 7 = r" by (rule sort3_at_sorted) (simp_all add: r_other l)
  have s5: "sort3_at r 2 4 6 = r" by (rule sort3_at_sorted) (simp_all add: r_other l lr2)
  have "sort9 p = r"
    unfolding sort9_def Let_def s1 s2 s3 unfolding q_def [symmetric] r_def [symmetric] s4 s5 ..
  then show ?thesis by (simp add: r_other)
qed

text \<open>
  Claim C1, on the code. When the nine luminances of a thread's neighbourhood
  are \<open>[1,1,1,1,1,1,1,1,1000]\<close>, the index found at position 4 is the
  kernel-local index 4, and the kernel reads its median sample at
  \<open>sharedBuffer[4]\<close>: element 4 of the tile, in row 0 of the tile, whatever
  the thread. The neighbour with kernel-local index 4 is the tile element
  \<open>neighbourIndex tx ty 4\<close>, the thread's own centre. The witness is thread
  \<open>(0, 0)\<close> on \<open>exampleTile\<close>: the sample selected is element 4, it has
  luminance 1000, and it is none of the thread's nine neighbours.
\<close>

theorem medianSample_single_outlier:
  assumes "map (\<lambda>n. luma (neighbourLumaIdx GetLuma sharedBuffer tx ty n)) [0..<9] =
             [1, 1, 1, 1, 1, 1, 1, 1, 1000]"
  shows "medianSample GetLuma sharedBuffer tx ty = sharedBuffer 4"
proof -
  have "sort9 (neighbourLumaIdx GetLuma sharedBuffer tx ty) 4 =
        neighbourLumaIdx GetLuma sharedBuffer tx ty 4"
    by (rule sort9_outlier_last [OF assms]) simp
  then show ?thesis
    by (simp add: medianSample_def medianColorIdx_def neighbourLumaIdx_def)
qed

theorem medianSample_single_outlier_witness:
  "map (\<lambda>n. luma (neighbourLumaIdx getmax exampleTile 0 0 n)) [0..<9] =
       [1, 1, 1, 1, 1, 1, 1, 1, 1000] \<and>
   medianSample getmax exampleTile 0 0 = exampleTile 4 \<and>
   getmax (color (exampleTile 4)) = 1000 \<and>
   4 \<notin> set (map (neighbourIndex 0 0) [0..<9])"
proof -
  have h: "map (\<lambda>n. luma (neighbourLumaIdx getmax exampleTile 0 0 n)) [0..<9] =
       [1, 1, 1, 1, 1, 1, 1, 1, 1000]"
    by code_simp
  have "getmax (color (exampleTile 4)) = 1000"
    by code_simp
  moreover have "4 \<notin> set (map (neighbourIndex 0 0) [0..<9])"
    by code_simp
  ultimately show ?thesis
    using h medianSample_single_outlier [OF h] by simp
qed

section \<open>The final blend of the median filter\<close>

lemma falloff_range: "0 \<le> e \<Longrightarrow> 0 \<le> min1f e 1 \<and> min1f e 1 \<le> 1"
  by (simp add: min1f_def)

lemma blendWeight_range:
  assumes "\<forall>d. 0 \<le> expf d"
  shows "0 \<le> blendWeight expf center median \<and> blendWeight expf center median \<le> 1"
proof -
  define a where "a = min1f (expf (- dot (sub3 (normal center) (normal median))
                                         (sub3 (normal center) (normal median)) / 0.1)) 1"
  define b where "b = min1f (expf (- ((depth center - depth median) *
                                      (depth center - depth median)) / 0.1)) 1"
  define c where "c = min1f (expf (- (if mask center \<noteq> mask median then 1 else 0) / 0.1)) 1"
  have w: "blendWeight expf center median = 1 * a * b * c"
    by (simp add: blendWeight_def Let_def a_def b_def c_def)
  have ra: "0 \<le> a \<and> a \<le> 1" unfolding a_def using assms by (intro falloff_range) simp
  have rb: "0 \<le> b \<and> b \<le> 1" unfolding b_def using assms by (intro falloff_range) simp
  have rc: "0 \<le> c \<and> c \<le> 1" unfolding c_def using assms by (intro falloff_range) simp
  have "0 \<le> a * b * c" using ra rb rc by simp
  moreover have "a * b \<le> 1" using ra rb by (simp add: mult_le_one)
  then have "a * b * c \<le> 1" using ra rb rc by (simp add: mult_le_one)
  ultimately show ?thesis unfolding w by simp
qed

lemma finalBlend_eq:
  "finalBlend orig med w = add3 orig (smul3 ((1 + w) / 2) (sub3 med orig))"
  by (simp add: finalBlend_def lerp3f_def add3_def smul3_def sub3_def field_simps)

text \<open>
  Claim C5, as the code has it. Take a thread of \<open>MedianFilter\<close> that
  stores a pixel, and an \<open>expf\<close> that is nowhere negative. The blend weight
  lies in \<open>[0, 1]\<close>. In exact arithmetic the blended colour is
  \<open>original + t * (median - original)\<close> with \<open>t = (1 + weight) / 2\<close>, so
  \<open>1/2 \<le> t \<le> 1\<close>: the pull toward the median sample is at least half of
  the difference, exactly half when the weight is 0, and all of it when the
  weight is 1. The thread stores the blended colour when the kernel finds no
  NaN in its three channels; when it finds one, it prints its message and
  stores the colour 0.
\<close>

theorem finalBlend_pull:
  assumes "\<forall>d. 0 \<le> expf d"
    and "MedianFilter_thread GetLuma RayMax expf isnan sz sharedBuffer blockIdx threadIdx =
           Some (pix, col, msk, nanFound)"
  shows "(let center = sharedBuffer (fst threadIdx + ldsAccessOffset +
                                       (snd threadIdx + ldsAccessOffset) * ldsBlockdim);
              median = medianSample GetLuma sharedBuffer (fst threadIdx) (snd threadIdx);
              weight = blendWeight expf center median;
              t = (1 + weight) / 2;
              blend = add3 (color center) (smul3 t (sub3 (color median) (color center)))
          in 0 \<le> weight \<and> weight \<le> 1 \<and> 1 / 2 \<le> t \<and> t \<le> 1 \<and>
             nanFound = (isnan (f3_x blend) \<or> isnan (f3_y blend) \<or> isnan (f3_z blend)) \<and>
             col = (if nanFound then Float3 0 0 0 else blend))"
proof -
  define center where "center = sharedBuffer (fst threadIdx + ldsAccessOffset +
                                       (snd threadIdx + ldsAccessOffset) * ldsBlockdim)"
  define median where "median = medianSample GetLuma sharedBuffer (fst threadIdx) (snd threadIdx)"
  define weight where "weight = blendWeight expf center median"
  define blend where
    "blend = add3 (color center) (smul3 ((1 + weight) / 2) (sub3 (color median) (color center)))"
  have w: "0 \<le> weight" "weight \<le> 1"
    unfolding weight_def using blendWeight_range [OF assms(1), of center median] by simp_all
  have b: "finalBlend (color center) (color median) weight = blend"
    unfolding blend_def by (rule finalBlend_eq)
  have s: "nanFound = (isnan (f3_x blend) \<or> isnan (f3_y blend) \<or> isnan (f3_z blend)) \<and>
           col = (if nanFound then Float3 0 0 0 else blend)"
    using assms(2)
    unfolding MedianFilter_thread_def Let_def
    unfolding center_def [symmetric] median_def [symmetric] weight_def [symmetric] b
    by (auto split: if_splits)
  show ?thesis
    unfolding Let_def
    unfolding center_def [symmetric] median_def [symmetric] weight_def [symmetric]
      blend_def [symmetric]
    using w s by simp
qed

text \<open>
  Thread \<open>(0, 0)\<close> of block \<open>(0, 0)\<close> on the example tile, with the exact
  exponential and no NaN: its centre is tile element 11, its median sample
  tile element 4, the weight is 1, and the thread stores the colour of the
  median sample.
\<close>

theorem finalBlend_pull_witness:
  "(\<forall>d::real. 0 \<le> exp d) \<and>
   MedianFilter_thread getmax 10 exp (\<lambda>v. False) (10, 10) exampleTile (0, 0) (0, 0) =
     Some ((0, 0), Float3 1000 1000 1000, 0, False) \<and>
   (let center = exampleTile (fst (0::nat, 0::nat) + ldsAccessOffset +
                                (snd (0::nat, 0::nat) + ldsAccessOffset) * ldsBlockdim);
        median = medianSample getmax exampleTile (fst (0::nat, 0::nat)) (snd (0::nat, 0::nat));
        weight = blendWeight exp center median;
        t = (1 + weight) / 2;
        blend = add3 (color center) (smul3 t (sub3 (color median) (color center)))
    in 0 \<le> weight \<and> weight \<le> 1 \<and> 1 / 2 \<le> t \<and> t \<le> 1 \<and>
       False = (False \<or> False \<or> False) \<and>
       Float3 1000 1000 1000 = (if False then Float3 0 0 0 else blend))"
proof -
  have h1: "\<forall>d::real. 0 \<le> exp d" by simp
  have i: "medianColorIdx getmax exampleTile 0 0 = 4" by code_simp
  have m: "medianSample getmax exampleTile 0 0 = exampleTile 4"
    by (simp add: medianSample_def i)
  have w: "blendWeight exp (exampleTile 11) (exampleTile 4) = 1"
    by (simp add: blendWeight_def exampleTile_def Let_def sub3_def dot_def min1f_def)
  have f: "finalBlend (color (exampleTile 11)) (color (exampleTile 4)) 1 = Float3 1000 1000 1000"
    by (simp add: finalBlend_def lerp3f_def add3_def smul3_def sub3_def exampleTile_def)
  have c: "depth (exampleTile 11) = 1" "mask (exampleTile 11) = 0"
    by (simp_all add: exampleTile_def)
  have h2: "MedianFilter_thread getmax 10 exp (\<lambda>v. False) (10, 10) exampleTile (0, 0) (0, 0) =
      Some ((0, 0), Float3 1000 1000 1000, 0, False)"
    by (simp add: MedianFilter_thread_def Let_def blockdim_def ldsBlockdim_def
        ldsAccessOffset_def m w f c)
  show ?thesis
    using h1 h2 finalBlend_pull [OF h1 h2] by blast
qed

text \<open>
  The claim as written fails on a black centre whose median sample is white
  and agrees with it in normal, depth and mask: the three falloffs are
  \<open>expf(-0)\<close>, which is 1, so the weight is 1, the blended colour is the
  median colour itself, and no \<open>t \<le> 1/2\<close> gives it.
\<close>

theorem finalBlend_counterexample:
  "blendWeight exp blackSample whiteSample = 1 \<and>
   finalBlend (color blackSample) (color whiteSample) (blendWeight exp blackSample whiteSample) =
     color whiteSample \<and>
   \<not> (\<exists>t\<le>1/2. finalBlend (color blackSample) (color whiteSample)
                    (blendWeight exp blackSample whiteSample) =
          add3 (color blackSample) (smul3 t (sub3 (color whiteSample) (color blackSample))))"
proof -
  have w: "blendWeight exp blackSample whiteSample = 1"
    by (simp add: blendWeight_def blackSample_def whiteSample_def Let_def sub3_def dot_def min1f_def)
  have f: "finalBlend (color blackSample) (color whiteSample) 1 = color whiteSample"
    by (simp add: finalBlend_def lerp3f_def add3_def smul3_def sub3_def blackSample_def whiteSample_def)
  have "\<not> (\<exists>t\<le>1/2. color whiteSample =
          add3 (color blackSample) (smul3 t (sub3 (color whiteSample) (color blackSample))))"
    by (auto simp: add3_def smul3_def sub3_def blackSample_def whiteSample_def)
  with w f show ?thesis by simp
qed

section \<open>Auto exposure: the eye adaption\<close>

lemma adaption_between:
  fixes p a dt :: real
  assumes "0 \<le> dt"
  shows "min p a \<le> p + (a - p) * (1.0 - exp (- dt * 0.001))"
    and "p + (a - p) * (1.0 - exp (- dt * 0.001)) \<le> max p a"
proof -
  define t where "t = 1 - exp (- dt * 0.001)"
  have "exp (- dt * 0.001) \<le> 1" using assms by simp
  moreover have "0 < exp (- dt * 0.001)" by simp
  ultimately have t: "0 \<le> t" "t \<le> 1" unfolding t_def by simp_all
  have eq: "p + (a - p) * t = (1 - t) * p + t * a" by (simp add: algebra_simps)
  have "(1 - t) * min p a \<le> (1 - t) * p" "t * min p a \<le> t * a"
    using t by (simp_all add: mult_left_mono)
  then have "(1 - t) * min p a + t * min p a \<le> (1 - t) * p + t * a" by linarith
  then have lo: "min p a \<le> p + (a - p) * t" unfolding eq by (simp add: algebra_simps)
  have "(1 - t) * p \<le> (1 - t) * max p a" "t * a \<le> t * max p a"
    using t by (simp_all add: mult_left_mono)
  then have "(1 - t) * p + t * a \<le> (1 - t) * max p a + t * max p a" by linarith
  then have hi: "p + (a - p) * t \<le> max p a" unfolding eq by (simp add: algebra_simps)
  show "min p a \<le> p + (a - p) * (1.0 - exp (- dt * 0.001))"
    using lo unfolding t_def by simp
  show "p + (a - p) * (1.0 - exp (- dt * 0.001)) \<le> max p a"
    using hi unfolding t_def by simp
qed

lemma AutoExposure_1:
  "AutoExposure e h area dt 1 =
     e 1 + (instantAveLum h area - e 1) * (1.0 - exp (- dt * 0.001))"
  by (simp add: AutoExposure_def instantAveLum_def Let_def split_beta)

lemma AutoExposure_2:
  "AutoExposure e h area dt 2 =
     e 2 + (instantBrightLum h area - e 2) * (1.0 - exp (- dt * 0.001))"
  by (simp add: AutoExposure_def instantBrightLum_def Let_def split_beta)

section \<open>Auto exposure: the accepted mass of the two scans\<close>

lemma cumulativeMass_lessThan:
  "(\<Sum>j<i. real (unat (h j)) / area) + real (unat (h i)) / area = cumulativeMass h area i"
  by (simp add: cumulativeMass_def lessThan_Suc_atMost [symmetric])

lemma darkLoop_spec:
  assumes "accuHistArea s = (\<Sum>j<i. real (unat (h j)) / area)"
    and "lumiSumArea s = 0"
    and "\<forall>j<i. cumulativeMass h area j \<le> darkThreshold"
    and "k < 64" and "darkThreshold < cumulativeMass h area k"
  shows "case darkLoop h area i s of (i1, s1) \<Rightarrow>
           i1 \<le> k \<and> accuHistArea s1 = cumulativeMass h area i1 \<and>
           darkThreshold < accuHistArea s1 \<and>
           lumiSumArea s1 = accuHistArea s1 - darkThreshold \<and>
           brightLum s1 = brightLum s"
  using assms
proof (induction h area i s rule: darkLoop.induct)
  case (1 histogram area i s)
  have ik: "i \<le> k"
  proof (rule ccontr)
    assume "\<not> i \<le> k"
    then have "k < i" by simp
    with "1.prems"(3) have "cumulativeMass histogram area k \<le> darkThreshold" by blast
    with "1.prems"(5) show False by simp
  qed
  then have i64: "i < 64" using "1.prems"(4) by simp
  define accu where "accu = accuHistArea s + real (unat (histogram i)) / area"
  have accu: "accu = cumulativeMass histogram area i"
    unfolding accu_def "1.prems"(1) by (rule cumulativeMass_lessThan)
  show ?case
  proof (cases "accu - darkThreshold > 0")
    case True
    then have "darkLoop histogram area i s =
        (i, s\<lparr>accuHistArea := accu, lumiSumArea := lumiSumArea s + (accu - darkThreshold),
              lumiSum := lumiSum s + (accu - darkThreshold) * BinToLum i\<rparr>)"
      using i64 by (subst darkLoop.simps) (simp add: Let_def accu_def)
    then show ?thesis
      using True ik accu "1.prems"(2) by simp
  next
    case False
    then have eq: "darkLoop histogram area i s =
        darkLoop histogram area (i + 1) (s\<lparr>accuHistArea := accu\<rparr>)"
      using i64 by (subst darkLoop.simps) (simp add: Let_def accu_def)
    have p1: "accuHistArea (s\<lparr>accuHistArea := accu\<rparr>) =
        (\<Sum>j<i + 1. real (unat (histogram j)) / area)"
      using accu by (simp add: cumulativeMass_def lessThan_Suc_atMost)
    have p3: "\<forall>j<i + 1. cumulativeMass histogram area j \<le> darkThreshold"
      using "1.prems"(3) False accu by (auto simp: less_Suc_eq)
    have "case darkLoop histogram area (i + 1) (s\<lparr>accuHistArea := accu\<rparr>) of (i1, s1) \<Rightarrow>
           i1 \<le> k \<and> accuHistArea s1 = cumulativeMass histogram area i1 \<and>
           darkThreshold < accuHistArea s1 \<and>
           lumiSumArea s1 = accuHistArea s1 - darkThreshold \<and>
           brightLum s1 = brightLum (s\<lparr>accuHistArea := accu\<rparr>)"
      using False "1.prems"(2,4,5) p1 p3
      by (intro "1.IH" [OF i64 refl refl refl refl refl, folded accu_def]) simp_all
    then show ?thesis unfolding eq by (simp add: split_beta)
  qed
qed

lemma BinToLum_range:
  assumes "i < 64"
  shows "0 < BinToLum i" and "BinToLum i \<le> 8"
proof -
  show "0 < BinToLum i" by (simp add: BinToLum_def)
  have "real i \<le> 63" using assms by simp
  then have "(real i / (63 * 0.99999) - 0.75) / 0.1 \<le> 3"
    by (simp add: field_simps)
  then have "BinToLum i \<le> 2 powr 3"
    unfolding BinToLum_def by (intro powr_mono) simp_all
  then show "BinToLum i \<le> 8" by simp
qed

lemma brightLoop_break:
  assumes "0 < area"
    and "(\<Sum>j<i. real (unat (h j)) / area) \<le> accuHistArea s"
    and "lumiSumArea s = accuHistArea s - darkThreshold"
    and "i \<le> k" and "k < 64" and "brightThreshold < cumulativeMass h area k"
  shows "case brightLoop h area i s of (i2, s2) \<Rightarrow>
           i2 < 64 \<and> lumiSumArea s2 = brightThreshold - darkThreshold"
  using assms
proof (induction h area i s rule: brightLoop.induct)
  case (1 histogram area i s)
  have i64: "i < 64" using "1.prems"(4,5) by simp
  define fHist where "fHist = real (unat (histogram i)) / area"
  define accu where "accu = accuHistArea s + fHist"
  have cum: "cumulativeMass histogram area i \<le> accu"
    unfolding accu_def fHist_def
    using "1.prems"(2) cumulativeMass_lessThan [of histogram area i] by simp
  show ?case
  proof (cases "accu - brightThreshold > 0")
    case True
    then have "brightLoop histogram area i s =
        (i, s\<lparr>accuHistArea := accu,
               lumiSumArea := lumiSumArea s + (brightThreshold - (accu - fHist)),
               lumiSum := lumiSum s + (brightThreshold - (accu - fHist)) * BinToLum i,
               brightLum := BinToLum i\<rparr>)"
      using i64 by (subst brightLoop.simps) (simp add: Let_def accu_def fHist_def)
    then show ?thesis
      using i64 "1.prems"(3) by (simp add: accu_def)
  next
    case False
    then have eq: "brightLoop histogram area i s =
        brightLoop histogram area (i + 1)
          (s\<lparr>accuHistArea := accu, lumiSumArea := lumiSumArea s + fHist,
             lumiSum := lumiSum s + fHist * BinToLum i\<rparr>)"
      using i64 by (subst brightLoop.simps) (simp add: Let_def accu_def fHist_def)
    have "i \<noteq> k" using False cum "1.prems"(6) by auto
    then have ik: "i + 1 \<le> k" using "1.prems"(4) by simp
    have p2: "(\<Sum>j<i + 1. real (unat (histogram j)) / area) \<le> accu"
      using cum by (simp add: cumulativeMass_def lessThan_Suc_atMost)
    have p3: "lumiSumArea s + fHist = accu - darkThreshold"
      using "1.prems"(3) by (simp add: accu_def)
    have "case brightLoop histogram area (i + 1)
          (s\<lparr>accuHistArea := accu, lumiSumArea := lumiSumArea s + fHist,
             lumiSum := lumiSum s + fHist * BinToLum i\<rparr>) of (i2, s2) \<Rightarrow>
           i2 < 64 \<and> lumiSumArea s2 = brightThreshold - darkThreshold"
      using False "1.prems"(1,5,6) ik p2 p3
      by (intro "1.IH" [OF i64 refl refl refl refl refl, folded fHist_def, folded accu_def]) simp_all
    then show ?thesis unfolding eq .
  qed
qed

lemma brightLoop_positive:
  assumes "0 < area"
    and "lumiSumArea s = accuHistArea s - darkThreshold"
    and "darkThreshold < accuHistArea s"
  shows "0 < lumiSumArea (snd (brightLoop h area i s))"
  using assms
proof (induction h area i s rule: brightLoop.induct)
  case (1 histogram area i s)
  show ?case
  proof (cases "i < 64")
    case False
    then have "brightLoop histogram area i s = (i, s)"
      by (subst brightLoop.simps) simp
    then show ?thesis using "1.prems" by simp
  next
    case i64: True
    define fHist where "fHist = real (unat (histogram i)) / area"
    define accu where "accu = accuHistArea s + fHist"
    have f0: "0 \<le> fHist"
      unfolding fHist_def using "1.prems"(1) by (intro divide_nonneg_pos of_nat_0_le_iff)
    show ?thesis
    proof (cases "accu - brightThreshold > 0")
      case True
      then have "brightLoop histogram area i s =
          (i, s\<lparr>accuHistArea := accu,
                 lumiSumArea := lumiSumArea s + (brightThreshold - (accu - fHist)),
                 lumiSum := lumiSum s + (brightThreshold - (accu - fHist)) * BinToLum i,
                 brightLum := BinToLum i\<rparr>)"
        using i64 by (subst brightLoop.simps) (simp add: Let_def accu_def fHist_def)
      then show ?thesis
        using "1.prems"(2) by (simp add: accu_def brightThreshold_def darkThreshold_def)
    next
      case False
      then have eq: "brightLoop histogram area i s =
          brightLoop histogram area (i + 1)
            (s\<lparr>accuHistArea := accu, lumiSumArea := lumiSumArea s + fHist,
               lumiSum := lumiSum s + fHist * BinToLum i\<rparr>)"
        using i64 by (subst brightLoop.simps) (simp add: Let_def accu_def fHist_def)
      have p3: "lumiSumArea s + fHist = accu - darkThreshold"
        using "1.prems"(2) by (simp add: accu_def)
      have p4: "darkThreshold < accu"
        using "1.prems"(3) f0 by (simp add: accu_def)
      have "0 < lumiSumArea (snd (brightLoop histogram area (i + 1)
            (s\<lparr>accuHistArea := accu, lumiSumArea := lumiSumArea s + fHist,
               lumiSum := lumiSum s + fHist * BinToLum i\<rparr>)))"
        using False "1.prems"(1) p3 p4
        by (intro "1.IH" [OF i64 refl refl refl refl refl, folded fHist_def, folded accu_def]) simp_all
      then show ?thesis unfolding eq .
    qed
  qed
qed

lemma brightLoop_brightLum:
  assumes "0 \<le> brightLum s" and "brightLum s \<le> 8"
  shows "0 \<le> brightLum (snd (brightLoop h area i s)) \<and>
         brightLum (snd (brightLoop h area i s)) \<le> 8"
  using assms
proof (induction h area i s rule: brightLoop.induct)
  case (1 histogram area i s)
  show ?case
  proof (cases "i < 64")
    case False
    then have "brightLoop histogram area i s = (i, s)"
      by (subst brightLoop.simps) simp
    then show ?thesis using "1.prems" by simp
  next
    case i64: True
    define fHist where "fHist = real (unat (histogram i)) / area"
    define accu where "accu = accuHistArea s + fHist"
    show ?thesis
    proof (cases "accu - brightThreshold > 0")
      case True
      then have "brightLoop histogram area i s =
          (i, s\<lparr>accuHistArea := accu,
                 lumiSumArea := lumiSumArea s + (brightThreshold - (accu - fHist)),
                 lumiSum := lumiSum s + (brightThreshold - (accu - fHist)) * BinToLum i,
                 brightLum := BinToLum i\<rparr>)"
        using i64 by (subst brightLoop.simps) (simp add: Let_def accu_def fHist_def)
      then show ?thesis
        using BinToLum_range [OF i64] by simp
    next
      case False
      then have eq: "brightLoop histogram area i s =
          brightLoop histogram area (i + 1)
            (s\<lparr>accuHistArea := accu, lumiSumArea := lumiSumArea s + fHist,
               lumiSum := lumiSum s + fHist * BinToLum i\<rparr>)"
        using i64 by (subst brightLoop.simps) (simp add: Let_def accu_def fHist_def)
      show ?thesis
        unfolding eq
        using False "1.prems"
        by (intro "1.IH" [OF i64 refl refl refl refl refl, folded fHist_def, folded accu_def]) simp_all
    qed
  qed
qed


lemma darkLoop_start:
  assumes "0 < area" and "k < 64" and "darkThreshold < cumulativeMass h area k"
  shows "case darkLoop h area 0 \<lparr>lumiSum = 0, lumiSumArea = 0, accuHistArea = 0, brightLum = 0\<rparr>
         of (i1, s1) \<Rightarrow>
           i1 \<le> k \<and> (\<Sum>j<i1. real (unat (h j)) / area) \<le> accuHistArea s1 \<and>
           darkThreshold < accuHistArea s1 \<and>
           lumiSumArea s1 = accuHistArea s1 - darkThreshold \<and>
           brightLum s1 = 0"
proof -
  obtain i1 s1 where r: "darkLoop h area 0
      \<lparr>lumiSum = 0, lumiSumArea = 0, accuHistArea = 0, brightLum = 0\<rparr> = (i1, s1)"
    by (cases "darkLoop h area 0 \<lparr>lumiSum = 0, lumiSumArea = 0, accuHistArea = 0, brightLum = 0\<rparr>")
  have spec: "i1 \<le> k \<and> accuHistArea s1 = cumulativeMass h area i1 \<and>
      darkThreshold < accuHistArea s1 \<and> lumiSumArea s1 = accuHistArea s1 - darkThreshold \<and>
      brightLum s1 = 0"
    using darkLoop_spec [where s = "\<lparr>lumiSum = 0, lumiSumArea = 0, accuHistArea = 0, brightLum = 0\<rparr>"
        and i = 0 and h = h and area = area and k = k] assms(2,3)
    by (simp add: r)
  have "0 \<le> real (unat (h i1)) / area"
    using assms(1) by (intro divide_nonneg_pos of_nat_0_le_iff)
  then have "(\<Sum>j<i1. real (unat (h j)) / area) \<le> cumulativeMass h area i1"
    using cumulativeMass_lessThan [of h area i1] by linarith
  with spec show ?thesis unfolding r by simp
qed

lemma darkLoop_leaves:
  assumes "lumiSumArea s = 0"
  shows "fst (darkLoop h area i s) < 64 \<longrightarrow>
         lumiSumArea (snd (darkLoop h area i s)) =
           accuHistArea (snd (darkLoop h area i s)) - darkThreshold"
  using assms
proof (induction h area i s rule: darkLoop.induct)
  case (1 histogram area i s)
  show ?case
  proof (cases "i < 64")
    case False
    then have "darkLoop histogram area i s = (i, s)"
      by (subst darkLoop.simps) simp
    then show ?thesis using False by simp
  next
    case i64: True
    define accu where "accu = accuHistArea s + real (unat (histogram i)) / area"
    show ?thesis
    proof (cases "accu - darkThreshold > 0")
      case True
      then have "darkLoop histogram area i s =
          (i, s\<lparr>accuHistArea := accu, lumiSumArea := lumiSumArea s + (accu - darkThreshold),
                lumiSum := lumiSum s + (accu - darkThreshold) * BinToLum i\<rparr>)"
        using i64 by (subst darkLoop.simps) (simp add: Let_def accu_def)
      then show ?thesis using "1.prems" by simp
    next
      case False
      then have eq: "darkLoop histogram area i s =
          darkLoop histogram area (i + 1) (s\<lparr>accuHistArea := accu\<rparr>)"
        using i64 by (subst darkLoop.simps) (simp add: Let_def accu_def)
      show ?thesis
        unfolding eq using False "1.prems"
        by (intro "1.IH" [OF i64 refl refl refl refl refl, folded accu_def]) simp_all
    qed
  qed
qed

lemma brightLoop_leaves:
  assumes "lumiSumArea s = accuHistArea s - darkThreshold"
  shows "fst (brightLoop h area i s) < 64 \<longrightarrow>
         lumiSumArea (snd (brightLoop h area i s)) = brightThreshold - darkThreshold"
  using assms
proof (induction h area i s rule: brightLoop.induct)
  case (1 histogram area i s)
  show ?case
  proof (cases "i < 64")
    case False
    then have "brightLoop histogram area i s = (i, s)"
      by (subst brightLoop.simps) simp
    then show ?thesis using False by simp
  next
    case i64: True
    define fHist where "fHist = real (unat (histogram i)) / area"
    define accu where "accu = accuHistArea s + fHist"
    show ?thesis
    proof (cases "accu - brightThreshold > 0")
      case True
      then have "brightLoop histogram area i s =
          (i, s\<lparr>accuHistArea := accu,
                 lumiSumArea := lumiSumArea s + (brightThreshold - (accu - fHist)),
                 lumiSum := lumiSum s + (brightThreshold - (accu - fHist)) * BinToLum i,
                 brightLum := BinToLum i\<rparr>)"
        using i64 by (subst brightLoop.simps) (simp add: Let_def accu_def fHist_def)
      then show ?thesis
        using "1.prems" by (simp add: accu_def)
    next
      case False
      then have eq: "brightLoop histogram area i s =
          brightLoop histogram area (i + 1)
            (s\<lparr>accuHistArea := accu, lumiSumArea := lumiSumArea s + fHist,
               lumiSum := lumiSum s + fHist * BinToLum i\<rparr>)"
        using i64 by (subst brightLoop.simps) (simp add: Let_def accu_def fHist_def)
      have p3: "lumiSumArea s + fHist = accu - darkThreshold"
        using "1.prems" by (simp add: accu_def)
      show ?thesis
        unfolding eq using False p3
        by (intro "1.IH" [OF i64 refl refl refl refl refl, folded fHist_def, folded accu_def]) simp_all
    qed
  qed
qed

lemma scan_leaves:
  assumes "fst (scanHistogram h area) < 64"
  shows "lumiSumArea (snd (scanHistogram h area)) = brightThreshold - darkThreshold"
proof -
  obtain i1 s1 where r: "darkLoop h area 0
      \<lparr>lumiSum = 0, lumiSumArea = 0, accuHistArea = 0, brightLum = 0\<rparr> = (i1, s1)"
    by (cases "darkLoop h area 0 \<lparr>lumiSum = 0, lumiSumArea = 0, accuHistArea = 0, brightLum = 0\<rparr>")
  have sc: "scanHistogram h area = brightLoop h area i1 s1"
    by (simp add: scanHistogram_def r)
  have i1: "i1 < 64"
  proof (rule ccontr)
    assume "\<not> i1 < 64"
    then have "brightLoop h area i1 s1 = (i1, s1)"
      by (subst brightLoop.simps) simp
    with assms sc \<open>\<not> i1 < 64\<close> show False by simp
  qed
  have "lumiSumArea s1 = accuHistArea s1 - darkThreshold"
    using darkLoop_leaves [of "\<lparr>lumiSum = 0, lumiSumArea = 0, accuHistArea = 0, brightLum = 0\<rparr>" h area 0]
      i1 by (simp add: r)
  from brightLoop_leaves [OF this, of h area i1] assms show ?thesis
    by (simp add: sc)
qed

lemma crossings_leave:
  assumes "0 < area"
    and "\<exists>k<64. brightThreshold < cumulativeMass h area k"
  shows "fst (scanHistogram h area) < 64"
proof -
  from assms(2) obtain k where k: "k < 64" "brightThreshold < cumulativeMass h area k"
    by blast
  then have kd: "darkThreshold < cumulativeMass h area k"
    by (simp add: brightThreshold_def darkThreshold_def)
  obtain i1 s1 where r: "darkLoop h area 0
      \<lparr>lumiSum = 0, lumiSumArea = 0, accuHistArea = 0, brightLum = 0\<rparr> = (i1, s1)"
    by (cases "darkLoop h area 0
      \<lparr>lumiSum = 0, lumiSumArea = 0, accuHistArea = 0, brightLum = 0\<rparr>")
  have d: "i1 \<le> k" "(\<Sum>j<i1. real (unat (h j)) / area) \<le> accuHistArea s1"
    "lumiSumArea s1 = accuHistArea s1 - darkThreshold"
    using darkLoop_start [OF assms(1) k(1) kd] by (simp_all add: r)
  have "case brightLoop h area i1 s1 of (i2, s2) \<Rightarrow>
           i2 < 64 \<and> lumiSumArea s2 = brightThreshold - darkThreshold"
    by (rule brightLoop_break [OF assms(1) d(2) d(3) d(1) k])
  then show ?thesis
    by (simp add: scanHistogram_def r split_beta)
qed

text \<open>
  Claim C3. For a positive area: when the first scan leaves its loop at a
  bucket whose accumulated mass exceeds the dark threshold 0.4 and the second
  scan leaves its loop at a bucket whose accumulated mass exceeds the bright
  threshold 0.9, which is when the loop variable ends below 64, the accepted
  mass \<open>lumiSumArea\<close> is exactly \<open>0.9 - 0.4 = 1/2\<close>. The second scan reads
  the bucket of the dark crossing again and adds it to \<open>accuHistArea\<close> a
  second time; the partial mass of the bright crossing is taken against that
  sum, and the two cancel. Both scans leave their loops in this way whenever
  the normalized cumulative mass of the histogram exceeds 0.4 at some bucket
  and 0.9 at some bucket.
\<close>

theorem lumiSumArea_half:
  assumes "0 < area"
  shows "(fst (scanHistogram histogram area) < 64 \<longrightarrow>
            lumiSumArea (snd (scanHistogram histogram area)) = 1 / 2) \<and>
         ((\<exists>k<64. darkThreshold < cumulativeMass histogram area k) \<and>
          (\<exists>k<64. brightThreshold < cumulativeMass histogram area k) \<longrightarrow>
            fst (scanHistogram histogram area) < 64)"
proof -
  have "brightThreshold - darkThreshold = 1 / 2"
    by (simp add: brightThreshold_def darkThreshold_def)
  then show ?thesis
    using scan_leaves [of histogram area] crossings_leave [OF assms, of histogram] by auto
qed

theorem lumiSumArea_half_witness:
  "(0::real) < 64 \<and>
   (\<exists>k<64. darkThreshold < cumulativeMass uniformHistogram 64 k) \<and>
   (\<exists>k<64. brightThreshold < cumulativeMass uniformHistogram 64 k) \<and>
   fst (scanHistogram uniformHistogram 64) < 64 \<and>
   lumiSumArea (snd (scanHistogram uniformHistogram 64)) = 1 / 2"
proof -
  have m: "cumulativeMass uniformHistogram 64 63 = 1"
    by (simp add: cumulativeMass_def uniformHistogram_def)
  have a: "(0::real) < 64" by simp
  have d: "\<exists>k<64. darkThreshold < cumulativeMass uniformHistogram 64 k"
    by (rule exI [of _ 63]) (simp add: m darkThreshold_def)
  have b: "\<exists>k<64. brightThreshold < cumulativeMass uniformHistogram 64 k"
    by (rule exI [of _ 63]) (simp add: m brightThreshold_def)
  show ?thesis
    using a d b lumiSumArea_half [OF a, of uniformHistogram] by blast
qed

section \<open>Auto exposure: the range of the smoothed luminances\<close>

lemma clampf_range: "lo \<le> hi \<Longrightarrow> lo \<le> clampf a lo hi \<and> clampf a lo hi \<le> hi"
  by (simp add: clampf_def)

lemma instantAveLum_range:
  "0.1 \<le> instantAveLum h area \<and> instantAveLum h area \<le> 10"
  using clampf_range [of "0.1" "10.0"] by (simp add: instantAveLum_def Let_def)

lemma instantBrightLum_range:
  assumes "0 < area" and "\<exists>k<64. darkThreshold < cumulativeMass h area k"
  shows "0 \<le> instantBrightLum h area \<and> instantBrightLum h area \<le> 8"
proof -
  from assms(2) obtain k where k: "k < 64" "darkThreshold < cumulativeMass h area k" by blast
  obtain i1 s1 where r: "darkLoop h area 0
      \<lparr>lumiSum = 0, lumiSumArea = 0, accuHistArea = 0, brightLum = 0\<rparr> = (i1, s1)"
    by (cases "darkLoop h area 0 \<lparr>lumiSum = 0, lumiSumArea = 0, accuHistArea = 0, brightLum = 0\<rparr>")
  have "brightLum s1 = 0"
    using darkLoop_start [OF assms(1) k] by (simp add: r)
  then have "0 \<le> brightLum (snd (brightLoop h area i1 s1)) \<and>
             brightLum (snd (brightLoop h area i1 s1)) \<le> 8"
    by (intro brightLoop_brightLum) simp_all
  then show ?thesis
    by (simp add: instantBrightLum_def scanHistogram_def r)
qed

lemma scan_accepted_mass_positive:
  assumes "0 < area" and "\<exists>k<64. darkThreshold < cumulativeMass h area k"
  shows "0 < lumiSumArea (snd (scanHistogram h area))"
proof -
  from assms(2) obtain k where k: "k < 64" "darkThreshold < cumulativeMass h area k" by blast
  obtain i1 s1 where r: "darkLoop h area 0
      \<lparr>lumiSum = 0, lumiSumArea = 0, accuHistArea = 0, brightLum = 0\<rparr> = (i1, s1)"
    by (cases "darkLoop h area 0 \<lparr>lumiSum = 0, lumiSumArea = 0, accuHistArea = 0, brightLum = 0\<rparr>")
  have d: "lumiSumArea s1 = accuHistArea s1 - darkThreshold" "darkThreshold < accuHistArea s1"
    using darkLoop_start [OF assms(1) k] by (simp_all add: r)
  have "0 < lumiSumArea (snd (brightLoop h area i1 s1))"
    by (rule brightLoop_positive [OF assms(1) d])
  then show ?thesis
    by (simp add: scanHistogram_def r)
qed

text \<open>
  Claim C2, as the code has it, in exact arithmetic. The kernel clamps the
  instantaneous average luminance to \<open>[0.1, 10]\<close> and does not clamp the
  bright luminance. For a positive area, a histogram whose cumulative mass
  exceeds the dark threshold (so that the accepted mass, the divisor of the
  average, is positive) and a delta-time that is not negative: a smoothed
  average luminance in \<open>[0.1, 10]\<close> stays in \<open>[0.1, 10]\<close>, and a smoothed
  bright luminance in \<open>[0, 10]\<close> stays in \<open>[0, 10]\<close>. Both start at 1. The
  kernel stores the smoothed values as the rounded update leaves them, with
  no clamp of their own: section \<open>The eye adaption passes its target by a
  rounding error\<close> has a smoothed average that the roundings of the kernel
  take from 0.5 to just below 0.1.
\<close>

theorem smoothed_luminance_range:
  assumes "0 < area"
    and "\<exists>k<64. darkThreshold < cumulativeMass histogram area k"
    and "0 \<le> deltaTime"
    and "0.1 \<le> exposure 1" and "exposure 1 \<le> 10"
    and "0 \<le> exposure 2" and "exposure 2 \<le> 10"
  shows "0 < lumiSumArea (snd (scanHistogram histogram area)) \<and>
         0.1 \<le> AutoExposure exposure histogram area deltaTime 1 \<and>
         AutoExposure exposure histogram area deltaTime 1 \<le> 10 \<and>
         0 \<le> AutoExposure exposure histogram area deltaTime 2 \<and>
         AutoExposure exposure histogram area deltaTime 2 \<le> 10"
proof -
  have a: "0.1 \<le> instantAveLum histogram area" "instantAveLum histogram area \<le> 10"
    using instantAveLum_range [of histogram area] by simp_all
  have b: "0 \<le> instantBrightLum histogram area" "instantBrightLum histogram area \<le> 8"
    using instantBrightLum_range [OF assms(1,2)] by simp_all
  have "min (exposure 1) (instantAveLum histogram area)
          \<le> AutoExposure exposure histogram area deltaTime 1"
       "AutoExposure exposure histogram area deltaTime 1
          \<le> max (exposure 1) (instantAveLum histogram area)"
       "min (exposure 2) (instantBrightLum histogram area)
          \<le> AutoExposure exposure histogram area deltaTime 2"
       "AutoExposure exposure histogram area deltaTime 2
          \<le> max (exposure 2) (instantBrightLum histogram area)"
    unfolding AutoExposure_1 AutoExposure_2
    using adaption_between [OF assms(3)] by blast+
  then show ?thesis
    using a b assms(4-7) scan_accepted_mass_positive [OF assms(1,2)] by auto
qed

theorem smoothed_luminance_range_witness:
  "(0::real) < 64 \<and>
   (\<exists>k<64. darkThreshold < cumulativeMass darkHistogram 64 k) \<and>
   (0::real) \<le> 16 \<and>
   0.1 \<le> initExposureLum 1 \<and> initExposureLum 1 \<le> 10 \<and>
   0 \<le> initExposureLum 2 \<and> initExposureLum 2 \<le> 10 \<and>
   0 < lumiSumArea (snd (scanHistogram darkHistogram 64)) \<and>
   0.1 \<le> AutoExposure initExposureLum darkHistogram 64 16 1 \<and>
   AutoExposure initExposureLum darkHistogram 64 16 1 \<le> 10 \<and>
   0 \<le> AutoExposure initExposureLum darkHistogram 64 16 2 \<and>
   AutoExposure initExposureLum darkHistogram 64 16 2 \<le> 10"
proof -
  have m: "cumulativeMass darkHistogram 64 0 = 1"
    by (simp add: cumulativeMass_def darkHistogram_def)
  have h1: "(0::real) < 64" by simp
  have h2: "\<exists>k<64. darkThreshold < cumulativeMass darkHistogram 64 k"
    by (rule exI [of _ 0]) (simp add: m darkThreshold_def)
  have h3: "(0::real) \<le> 16" by simp
  have h4: "0.1 \<le> initExposureLum 1" "initExposureLum 1 \<le> 10"
    "0 \<le> initExposureLum 2" "initExposureLum 2 \<le> 10"
    by (simp_all add: initExposureLum_def)
  show ?thesis
    using h1 h2 h4 smoothed_luminance_range [OF h1 h2 h3 h4] by simp
qed

lemma scan_darkHistogram:
  "brightLum (snd (scanHistogram darkHistogram 64)) = BinToLum 0"
proof -
  have d: "darkLoop darkHistogram 64 0
             \<lparr>lumiSum = 0, lumiSumArea = 0, accuHistArea = 0, brightLum = 0\<rparr> =
           (0, \<lparr>lumiSum = (1 - darkThreshold) * BinToLum 0, lumiSumArea = 1 - darkThreshold,
                accuHistArea = 1, brightLum = 0\<rparr>)"
    by (subst darkLoop.simps) (simp add: Let_def darkHistogram_def darkThreshold_def)
  have b: "brightLum (snd (brightLoop darkHistogram 64 0
             \<lparr>lumiSum = (1 - darkThreshold) * BinToLum 0, lumiSumArea = 1 - darkThreshold,
                accuHistArea = 1, brightLum = 0\<rparr>)) = BinToLum 0"
    by (subst brightLoop.simps) (simp add: Let_def darkHistogram_def brightThreshold_def)
  show ?thesis
    by (simp add: scanHistogram_def d b)
qed

lemma BinToLum_0: "BinToLum 0 \<le> 1 / 128"
proof -
  have "BinToLum 0 = 2 powr (- 7.5)"
    by (simp add: BinToLum_def)
  also have "\<dots> \<le> 2 powr (- 7)"
    by (intro powr_mono) simp_all
  also have "\<dots> = 1 / 128"
    by (simp add: powr_minus_divide)
  finally show ?thesis .
qed

text \<open>
  The lower bound 0.1 fails for the bright luminance. On a frame of 64 pixels
  that all fall into bucket 0, from the initial exposure state and after ten
  seconds, the smoothed bright luminance is below 0.1: the bright cut is at
  \<open>BinToLum 0 = 2 powr (-7.5)\<close>.
\<close>

theorem bright_luminance_counterexample:
  "(0::real) \<le> 10000 \<and>
   initExposureLum 2 = 1 \<and>
   AutoExposure initExposureLum darkHistogram 64 10000 2 < 0.1"
proof -
  have e: "exp (- 10) \<le> (1 / 11 :: real)"
  proof -
    have "(11::real) \<le> exp 10"
      using exp_ge_add_one_self [of "10::real"] by simp
    then have "1 / exp (10::real) \<le> 1 / 11"
      by (intro divide_left_mono) simp_all
    then show ?thesis by (simp add: exp_minus inverse_eq_divide)
  qed
  define b where "b = BinToLum 0"
  define t where "t = exp (- 10 :: real)"
  have b: "0 < b" "b \<le> 1 / 128"
    unfolding b_def using BinToLum_range(1) [of 0] BinToLum_0 by simp_all
  have t: "0 < t" "t \<le> 1 / 11"
    unfolding t_def using e by simp_all
  have "AutoExposure initExposureLum darkHistogram 64 10000 2 = 1 + (b - 1) * (1 - t)"
    by (simp add: AutoExposure_2 instantBrightLum_def scan_darkHistogram initExposureLum_def
        b_def t_def)
  also have "\<dots> = t + b * (1 - t)" by (simp add: algebra_simps)
  finally have eq: "AutoExposure initExposureLum darkHistogram 64 10000 2 = t + b * (1 - t)" .
  have "b * (1 - t) \<le> b * 1"
    using b t by (intro mult_left_mono) simp_all
  then have "t + b * (1 - t) \<le> 1 / 11 + 1 / 128"
    using b t by linarith
  also have "\<dots> < (0.1 :: real)" by simp
  finally show ?thesis
    unfolding eq by (simp add: initExposureLum_def)
qed

section \<open>Auto exposure: the eye adaption does not pass its target in exact arithmetic\<close>

text \<open>
  Claim C9, as the code has it, in exact arithmetic. For a positive area, a
  histogram whose cumulative mass exceeds the dark threshold (so that the
  accepted mass, the divisor of the average, is positive) and a delta-time
  that is not negative: the smoothed average luminance that \<open>AutoExposure\<close>
  writes to \<open>exposure[1]\<close> lies between the previous smoothed value and the
  instantaneous average luminance, and the smoothed bright luminance written
  to \<open>exposure[2]\<close> lies between its previous value and the instantaneous
  bright luminance: each moves toward the instantaneous value and does not
  pass it.
\<close>

theorem eye_adaption_no_overshoot:
  assumes "0 \<le> deltaTime"
    and "0 < area"
    and "\<exists>k<64. darkThreshold < cumulativeMass histogram area k"
  shows "0 < lumiSumArea (snd (scanHistogram histogram area)) \<and>
         min (exposure 1) (instantAveLum histogram area)
           \<le> AutoExposure exposure histogram area deltaTime 1 \<and>
         AutoExposure exposure histogram area deltaTime 1
           \<le> max (exposure 1) (instantAveLum histogram area) \<and>
         min (exposure 2) (instantBrightLum histogram area)
           \<le> AutoExposure exposure histogram area deltaTime 2 \<and>
         AutoExposure exposure histogram area deltaTime 2
           \<le> max (exposure 2) (instantBrightLum histogram area)"
  unfolding AutoExposure_1 AutoExposure_2
  using adaption_between [OF assms(1)] scan_accepted_mass_positive [OF assms(2,3)] by blast

theorem eye_adaption_no_overshoot_witness:
  "(0::real) \<le> 16 \<and> (0::real) < 64 \<and>
   (\<exists>k<64. darkThreshold < cumulativeMass darkHistogram 64 k) \<and>
   0 < lumiSumArea (snd (scanHistogram darkHistogram 64)) \<and>
   min (initExposureLum 1) (instantAveLum darkHistogram 64)
     \<le> AutoExposure initExposureLum darkHistogram 64 16 1 \<and>
   AutoExposure initExposureLum darkHistogram 64 16 1
     \<le> max (initExposureLum 1) (instantAveLum darkHistogram 64) \<and>
   min (initExposureLum 2) (instantBrightLum darkHistogram 64)
     \<le> AutoExposure initExposureLum darkHistogram 64 16 2 \<and>
   AutoExposure initExposureLum darkHistogram 64 16 2
     \<le> max (initExposureLum 2) (instantBrightLum darkHistogram 64)"
proof -
  have m: "cumulativeMass darkHistogram 64 0 = 1"
    by (simp add: cumulativeMass_def darkHistogram_def)
  have h1: "(0::real) \<le> 16" by simp
  have h2: "(0::real) < 64" by simp
  have h3: "\<exists>k<64. darkThreshold < cumulativeMass darkHistogram 64 k"
    by (rule exI [of _ 0]) (simp add: m darkThreshold_def)
  show ?thesis
    using h1 h2 h3 eye_adaption_no_overshoot [OF h1 h2 h3, of initExposureLum] by simp
qed

section \<open>The eye adaption passes its target by a rounding error\<close>

lemma pow2_powr: "pow2 k = 2 powr of_int k"
  by (simp add: pow2_def powr_realpow [symmetric] powr_minus divide_inverse)

lemma pow2_pos: "0 < pow2 k"
  by (simp add: pow2_def)

lemma binade_eqI:
  assumes "pow2 e \<le> \<bar>x\<bar>" and "\<bar>x\<bar> < pow2 (e + 1)"
  shows "binade x = e"
proof -
  have p: "0 < \<bar>x\<bar>" using assms(1) pow2_pos [of e] by linarith
  have "of_int e \<le> log 2 \<bar>x\<bar>"
    using assms(1) p by (simp add: pow2_powr le_log_iff)
  moreover have "log 2 \<bar>x\<bar> < of_int e + 1"
    using assms(2) p by (simp add: pow2_powr log_less_iff add.commute)
  ultimately show ?thesis unfolding binade_def by (rule floor_unique)
qed

lemma rne_eqI:
  assumes "\<bar>y - of_int n\<bar> < 1 / 2"
  shows "rne y = n"
proof (cases "of_int n \<le> y")
  case True
  then have f: "\<lfloor>y\<rfloor> = n" using assms by (intro floor_unique) linarith+
  show ?thesis using assms True by (simp add: rne_def f Let_def)
next
  case False
  then have f: "\<lfloor>y\<rfloor> = n - 1" using assms by (intro floor_unique) simp_all
  have "1 / 2 < y - of_int (n - 1)" using assms False by simp
  then show ?thesis by (simp add: rne_def f Let_def)
qed

text \<open>
  A number of binade \<open>e\<close>, not below the least exponent, whose quotient by
  the quantum lies within less than a half of the integer \<open>n\<close>, is rounded to
  \<open>n\<close> quanta.
\<close>

lemma roundFloat_eqI:
  assumes "pow2 e \<le> \<bar>x\<bar>" and "\<bar>x\<bar> < pow2 (e + 1)" and "emin \<le> e"
    and "\<bar>x / pow2 (e - int p + 1) - of_int n\<bar> < 1 / 2"
  shows "roundFloat p emin x = of_int n * pow2 (e - int p + 1)"
proof -
  have b: "binade x = e" using assms(1,2) by (rule binade_eqI)
  have x: "x \<noteq> 0" using assms(1) pow2_pos [of e] by auto
  have m: "max e emin = e" using assms(3) by simp
  show ?thesis
    using x by (simp add: roundFloat_def b m Let_def rne_eqI [OF assms(4)])
qed

text \<open>
  The constants and the inputs of the example. The float \<open>0.1f\<close> is
  \<open>13421773 / 2 ^ 27\<close>, a little above one tenth; the double \<open>0.001\<close> is
  \<open>4611686018427388 / 2 ^ 62\<close>; one half and one million are binary32
  numbers.
\<close>

lemma fl32_tenth: "fl32 (1 / 10) = 13421773 / 2 ^ 27"
  unfolding fl32_def
  by (subst roundFloat_eqI [where e = "- 4" and n = 13421773]) (simp_all add: pow2_def)

lemma fl64_milli: "fl64 (1 / 1000) = 4611686018427388 / 2 ^ 62"
  unfolding fl64_def
  by (subst roundFloat_eqI [where e = "- 10" and n = 4611686018427388]) (simp_all add: pow2_def)

lemma fl32_half: "fl32 (1 / 2) = 1 / 2"
  unfolding fl32_def
  by (subst roundFloat_eqI [where e = "- 1" and n = "2 ^ 23"]) (simp_all add: pow2_def)

lemma fl32_million: "fl32 1000000 = 1000000"
  unfolding fl32_def
  by (subst roundFloat_eqI [where e = 19 and n = 16000000]) (simp_all add: pow2_def)

text \<open>
  The argument of \<open>expf\<close> for a delta-time of one million milliseconds: the
  product of the doubles is rounded to \<open>-1000\<close>, which is a float.
\<close>

lemma arg_double: "fl64 (- 1000000 * (4611686018427388 / 2 ^ 62)) = - 1000"
  unfolding fl64_def
  by (subst roundFloat_eqI [where e = 9 and n = "- 8796093022208000"]) (simp_all add: pow2_def)

lemma arg_float: "fl32 (- 1000) = - 1000"
  unfolding fl32_def
  by (subst roundFloat_eqI [where e = 9 and n = "- 16384000"]) (simp_all add: pow2_def)

lemma exp_1000: "exp (- 1000 :: real) < 1 / 2 ^ 150"
proof -
  have "(2::real) \<le> exp 1" using exp_ge_add_one_self [of "1::real"] by simp
  then have "(2::real) ^ 1000 \<le> exp 1 ^ 1000" by (intro power_mono) simp_all
  also have "\<dots> = exp (1000::real)" by (simp add: exp_of_nat_mult [symmetric])
  finally have "(2::real) ^ 1000 \<le> exp 1000" .
  moreover have "(2::real) ^ 150 < 2 ^ 1000" by (intro power_strict_increasing) simp_all
  ultimately have "(2::real) ^ 150 < exp 1000" by linarith
  then have "1 / exp (1000::real) < 1 / 2 ^ 150"
    by (intro divide_strict_left_mono) simp_all
  then show ?thesis by (simp add: exp_minus inverse_eq_divide)
qed

text \<open>The exponential of \<open>-1000\<close> underflows to 0.\<close>

lemma expf_underflow: "expf_rn (- 1000) = 0"
proof -
  define x where "x = exp (- 1000 :: real)"
  have x: "0 < x" "x < 1 / 2 ^ 150" unfolding x_def using exp_1000 by simp_all
  have "x < pow2 (- 126)"
  proof -
    have "(1::real) / 2 ^ 150 \<le> 1 / 2 ^ 126"
      by (intro divide_left_mono power_increasing) simp_all
    then show ?thesis using x by (simp add: pow2_def)
  qed
  then have "log 2 x < - 126" using x(1) by (simp add: pow2_powr log_less_iff)
  then have "binade x < - 126" unfolding binade_def using x(1) by (simp add: floor_less_iff)
  then have m: "max (binade x) (- 126) = - 126" by simp
  define y where "y = x / pow2 (- 149)"
  have "x * 2 ^ 149 < (1 / 2 ^ 150) * 2 ^ 149"
    using x by (intro mult_strict_right_mono) simp_all
  then have q: "y < 1 / 2" by (simp add: y_def pow2_def)
  have q0: "0 \<le> y" unfolding y_def using x pow2_pos [of "- 149"] by simp
  have "\<bar>y - of_int 0\<bar> < 1 / 2" using q q0 by simp
  then have "rne y = 0" by (rule rne_eqI)
  then have "fl32 x = 0" using x(1) by (simp add: fl32_def roundFloat_def m Let_def y_def)
  then show ?thesis by (simp add: expf_rn_def x_def)
qed

lemma one_double: "fl64 1 = 1"
  unfolding fl64_def
  by (subst roundFloat_eqI [where e = 0 and n = "2 ^ 52"]) (simp_all add: pow2_def)

text \<open>
  The float difference \<open>0.1f - 0.5f\<close>: the exact difference
  \<open>- 53687091 / 2 ^ 27\<close> has 26 significant bits and is rounded away from 0,
  to \<open>- 13421773 / 2 ^ 25\<close>.
\<close>

lemma diff_float: "fl32 (13421773 / 2 ^ 27 - 1 / 2) = - (13421773 / 2 ^ 25)"
  unfolding fl32_def
  by (subst roundFloat_eqI [where e = "- 2" and n = "- 13421773"]) (simp_all add: pow2_def)

lemma prod_double: "fl64 (- (13421773 / 2 ^ 25)) = - (13421773 / 2 ^ 25)"
  unfolding fl64_def
  by (subst roundFloat_eqI [where e = "- 2" and n = "- (13421773 * 2 ^ 29)"])
    (simp_all add: pow2_def)

lemma sum_double: "fl64 (1 / 2 + - (13421773 / 2 ^ 25)) = 13421772 / 2 ^ 27"
  unfolding fl64_def
  by (subst roundFloat_eqI [where e = "- 4" and n = "13421772 * 2 ^ 29"])
    (simp_all add: pow2_def)

lemma sum_float: "fl32 (13421772 / 2 ^ 27) = 13421772 / 2 ^ 27"
  unfolding fl32_def
  by (subst roundFloat_eqI [where e = "- 4" and n = 13421772]) (simp_all add: pow2_def)

lemma eyeAdaption32_example:
  "eyeAdaption32 expf_rn (1 / 2) (fl32 (1 / 10)) 1000000 = 13421772 / 2 ^ 27"
proof -
  have c: "fl64 (0.001::real) = 4611686018427388 / 2 ^ 62" using fl64_milli by simp
  have x: "fl32 (fl64 (- 1000000 * fl64 0.001)) = - 1000"
    by (simp only: c arg_double arg_float)
  have k: "fl64 (1.0 - expf_rn (- 1000)) = 1"
    by (simp add: expf_underflow one_double)
  have d: "fl32 (fl32 (1 / 10) - 1 / 2) = - (13421773 / 2 ^ 25)"
    by (simp only: fl32_tenth diff_float)
  have m: "fl64 (- (13421773 / 2 ^ 25) * 1) = - (13421773 / 2 ^ 25)"
    by (simp only: mult_1_right prod_double)
  have s: "fl32 (fl64 (1 / 2 + - (13421773 / 2 ^ 25))) = 13421772 / 2 ^ 27"
    by (simp only: sum_double sum_float)
  show ?thesis
    unfolding eyeAdaption32_def Let_def by (simp only: x k d m s)
qed

text \<open>
  The claim as written fails in the arithmetic of the kernel. The previous
  smoothed luminance is 0.5, the instantaneous luminance is \<open>0.1f\<close>, the
  lower bound of the clamp as a float, and the delta-time is one million
  milliseconds, so that \<open>expf\<close> underflows to 0 and the factor is 1. The
  float difference \<open>0.1f - 0.5f\<close> is rounded away from 0, and the value
  stored is \<open>13421772 / 2 ^ 27\<close>, the float next below \<open>0.1f\<close>: the smoothed
  luminance has passed the instantaneous one. It is also below one tenth.
\<close>

theorem eye_adaption_rounding_counterexample:
  "(0::real) \<le> 1000000 \<and>
   fl32 (1 / 2) = 1 / 2 \<and> fl32 1000000 = 1000000 \<and>
   fl32 (1 / 10) = 13421773 / 2 ^ 27 \<and>
   eyeAdaption32 expf_rn (1 / 2) (fl32 (1 / 10)) 1000000 = 13421772 / 2 ^ 27 \<and>
   eyeAdaption32 expf_rn (1 / 2) (fl32 (1 / 10)) 1000000 < min (1 / 2) (fl32 (1 / 10)) \<and>
   eyeAdaption32 expf_rn (1 / 2) (fl32 (1 / 10)) 1000000 < 1 / 10"
proof -
  have "(13421772 / 2 ^ 27 :: real) < min (1 / 2) (13421773 / 2 ^ 27)" by simp
  moreover have "(13421772 / 2 ^ 27 :: real) < 1 / 10" by simp
  ultimately show ?thesis
    unfolding eyeAdaption32_example unfolding fl32_tenth fl32_half fl32_million by simp
qed

section \<open>The bytes written to the render target\<close>

lemma float_to_uchar_channel:
  assumes "0 \<le> c" "c \<le> 1"
  shows "unat (float_to_uchar (c * 255 + 0.5)) = nat \<lfloor>c * 255 + 1 / 2\<rfloor>"
proof -
  have lo: "0 \<le> \<lfloor>c * 255 + 1 / 2\<rfloor>" using assms by simp
  have "c * 255 + 1 / 2 < 256" using assms by simp
  then have hi: "\<lfloor>c * 255 + 1 / 2\<rfloor> < 256" by (simp add: floor_less_iff)
  have "float_to_uchar (c * 255 + 0.5) = word_of_int \<lfloor>c * 255 + 1 / 2\<rfloor>"
    using assms by (simp add: float_to_uchar_def)
  then have "unat (float_to_uchar (c * 255 + 0.5)) = nat (\<lfloor>c * 255 + 1 / 2\<rfloor> mod 256)"
    by (simp add: unat_eq_nat_uint uint_word_of_int)
  also have "\<dots> = nat \<lfloor>c * 255 + 1 / 2\<rfloor>"
    using lo hi by simp
  finally show ?thesis .
qed

lemma clampf_unit: "0 \<le> clampf a 0 1 \<and> clampf a 0 1 \<le> 1"
  by (simp add: clampf_def)

text \<open>
  Claim C10. For every output pixel inside \<open>outSize\<close>, the thread writes four
  bytes at byte offset \<open>4 * idx.x\<close> of row \<open>idx.y\<close>: the red, green and blue
  bytes are the channel clamped to \<open>[0, 1]\<close>, times 255, plus 0.5, with the
  fraction dropped (a value from 0 to 255, which the 8 bits hold unchanged), and the
  alpha byte is 1, the float \<open>1.0f\<close> converted to a byte, which is not 255.
\<close>

theorem CopyToOutput_bytes:
  assumes "fst (pixelIdx blockIdx blockDim threadIdx) < fst outSize"
    and "snd (pixelIdx blockIdx blockDim threadIdx) < snd outSize"
  shows "\<exists>r g b a.
           CopyToOutput_thread outputResColor outSize blockIdx blockDim threadIdx =
             Some (fst (pixelIdx blockIdx blockDim threadIdx) * 4,
                   snd (pixelIdx blockIdx blockDim threadIdx), (r, g, b, a)) \<and>
           unat r = nat \<lfloor>clampf (f3_x (outputResColor (pixelIdx blockIdx blockDim threadIdx))) 0 1 * 255 + 1 / 2\<rfloor> \<and>
           unat g = nat \<lfloor>clampf (f3_y (outputResColor (pixelIdx blockIdx blockDim threadIdx))) 0 1 * 255 + 1 / 2\<rfloor> \<and>
           unat b = nat \<lfloor>clampf (f3_z (outputResColor (pixelIdx blockIdx blockDim threadIdx))) 0 1 * 255 + 1 / 2\<rfloor> \<and>
           a = 1 \<and> a \<noteq> 255"
proof -
  define c where "c = outputResColor (pixelIdx blockIdx blockDim threadIdx)"
  have a: "float_to_uchar 1 = 1" by (simp add: float_to_uchar_def)
  have "CopyToOutput_thread outputResColor outSize blockIdx blockDim threadIdx =
      Some (fst (pixelIdx blockIdx blockDim threadIdx) * 4,
            snd (pixelIdx blockIdx blockDim threadIdx),
            (float_to_uchar (clampf (f3_x c) 0 1 * 255 + 0.5),
             float_to_uchar (clampf (f3_y c) 0 1 * 255 + 0.5),
             float_to_uchar (clampf (f3_z c) 0 1 * 255 + 0.5), 1))"
    using assms by (simp add: CopyToOutput_thread_def Let_def clamp3f_def make_uchar4_def a c_def)
  then show ?thesis
    using float_to_uchar_channel [of "clampf (f3_x c) 0 1"]
      float_to_uchar_channel [of "clampf (f3_y c) 0 1"]
      float_to_uchar_channel [of "clampf (f3_z c) 0 1"]
      clampf_unit
    by (simp add: c_def)
qed

theorem CopyToOutput_bytes_witness:
  "fst (pixelIdx (0, 0) (8, 8) (1, 1)) < fst ((2, 2) :: Int2) \<and>
   snd (pixelIdx (0, 0) (8, 8) (1, 1)) < snd ((2, 2) :: Int2) \<and>
   (\<exists>r g b a. CopyToOutput_thread exampleBuffer (2, 2) (0, 0) (8, 8) (1, 1) =
                 Some (4, 1, (r, g, b, a)) \<and>
               unat r = 255 \<and> unat g = 128 \<and> unat b = 255 \<and> a = 1)"
proof -
  have h1: "fst (pixelIdx (0, 0) (8, 8) (1, 1)) < fst ((2, 2) :: Int2)"
    by (simp add: pixelIdx_def)
  have h2: "snd (pixelIdx (0, 0) (8, 8) (1, 1)) < snd ((2, 2) :: Int2)"
    by (simp add: pixelIdx_def)
  show ?thesis
    using h1 h2 CopyToOutput_bytes [OF h1 h2, of exampleBuffer]
    by (simp add: pixelIdx_def exampleBuffer_def clampf_def)
qed

section \<open>Which buffer accesses are guarded\<close>

lemma pixelIdx_nonneg:
  "0 \<le> fst (pixelIdx blockIdx blockDim threadIdx) \<and> 0 \<le> snd (pixelIdx blockIdx blockDim threadIdx)"
  by (simp add: pixelIdx_def)




section \<open>Which tile kernels separate writes from reads by a barrier\<close>

lemma readsAfterWrites_D:
  assumes "readsAfterWrites events threads"
    and "t \<in> set threads" "u \<in> set threads" "t \<noteq> u"
    and "(p, a) \<in> set (readsOf (events t))" "(q, a) \<in> set (writesOf (events u))"
  shows "q < p"
proof -
  from assms(1,2,3,4) have "list_all (\<lambda>(p, a). list_all (\<lambda>(q, b). if a = b then q < p else True)
                                    (writesOf (events u))) (readsOf (events t))"
    unfolding readsAfterWrites_def list_all_iff by blast
  with assms(5) have "list_all (\<lambda>(q, b). if a = b then q < p else True) (writesOf (events u))"
    unfolding list_all_iff by blast
  with assms(6) show ?thesis
    unfolding list_all_iff by fastforce
qed

lemma DownScale4_not_separated: "\<not> readsAfterWrites DownScale4_events (blockThreads 8 8)"
proof
  assume sep: "readsAfterWrites DownScale4_events (blockThreads 8 8)"
  have t: "(0, 0) \<in> set (blockThreads 8 8)" and u: "(1, 0) \<in> set (blockThreads 8 8)"
    by (simp_all add: blockThreads_def)
  have r: "(0, (1, 0)) \<in> set (readsOf (DownScale4_events (0, 0)))"
    by (simp add: readsOf_def DownScale4_events_def)
  have w: "(0, (1, 0)) \<in> set (writesOf (DownScale4_events (1, 0)))"
    by (simp add: writesOf_def DownScale4_events_def)
  have "(0::nat) < 0"
    by (rule readsAfterWrites_D [OF sep t u _ r w]) simp
  then show False by simp
qed

lemma DownScale4_no_barrier: "barriers (DownScale4_events t) = 0"
  by (simp add: barriers_def DownScale4_events_def Let_def)

lemma BloomGuassian_not_by_all: "\<not> barriersByAll BloomGuassian_events (blockThreads 16 16)"
proof
  assume a: "barriersByAll BloomGuassian_events (blockThreads 16 16)"
  have t: "(2, 2) \<in> set (blockThreads 16 16)"
    by (simp add: blockThreads_def)
  have h: "hd (blockThreads 16 16) = (0, 0)"
    by code_simp
  have "barriers (BloomGuassian_events (2, 2)) = barriers (BloomGuassian_events (0, 0))"
    using a t unfolding barriersByAll_def list_all_iff h by blast
  moreover have "barriers (BloomGuassian_events (2, 2)) = 1"
    by code_simp
  moreover have "barriers (BloomGuassian_events (0, 0)) = 0"
    by code_simp
  ultimately show False by simp
qed

lemma phases_no_barrier: "Barrier \<notin> set es \<Longrightarrow> phases n es = map (Pair n) es"
  by (induction n es rule: phases.induct) auto

lemma phases_append_no_barrier:
  "Barrier \<notin> set es \<Longrightarrow> phases n (es @ fs) = map (Pair n) es @ phases n fs"
  by (induction n es rule: phases.induct) auto

lemma MedianFilter_events_shape:
  "\<exists>ws rs. MedianFilter_events GetLuma RayMax sz sharedBuffer blockIdx threadIdx = ws @ Barrier # rs \<and>
     (\<forall>e \<in> set ws. \<exists>a. e = TileWrite a) \<and> (\<forall>e \<in> set rs. \<exists>a. e = TileRead a)"
proof -
  define tx where "tx = fst threadIdx"
  define ty where "ty = snd threadIdx"
  define ws where "ws = [TileWrite (tx + ty * blockdim)] @
         (if tx + ty * blockdim + blockdim * blockdim < ldsBlockdim * ldsBlockdim
          then [TileWrite (tx + ty * blockdim + blockdim * blockdim)] else [])"
  define rs where "rs =
         (if int (tx + fst blockIdx * blockdim) \<ge> fst sz \<or> int (ty + snd blockIdx * blockdim) \<ge> snd sz then []
          else TileRead (tx + ldsAccessOffset + (ty + ldsAccessOffset) * ldsBlockdim) #
            (if depth (sharedBuffer (tx + ldsAccessOffset + (ty + ldsAccessOffset) * ldsBlockdim)) \<ge> RayMax then []
             else map (\<lambda>n. TileRead (neighbourIndex tx ty n)) [0..<9] @
                  replicate 4 (TileRead (nat (medianColorIdx GetLuma sharedBuffer tx ty)))))"
  have "MedianFilter_events GetLuma RayMax sz sharedBuffer blockIdx threadIdx = ws @ Barrier # rs"
    by (simp add: MedianFilter_events_def Let_def ws_def rs_def tx_def ty_def)
  moreover have "\<forall>e \<in> set ws. \<exists>a. e = TileWrite a"
    by (auto simp: ws_def)
  moreover have "\<forall>e \<in> set rs. \<exists>a. e = TileRead a"
    by (auto simp: rs_def)
  ultimately show ?thesis by blast
qed

lemma writes_reads_of_shape:
  assumes "\<forall>e \<in> set ws. \<exists>a. e = TileWrite a" and "\<forall>e \<in> set rs. \<exists>a. e = TileRead a"
  shows "barriers (ws @ Barrier # rs) = 1"
    and "\<forall>(q, b) \<in> set (writesOf (ws @ Barrier # rs)). q = 0"
    and "\<forall>(p, a) \<in> set (readsOf (ws @ Barrier # rs)). p = 1"
proof -
  have nw: "Barrier \<notin> set ws" using assms(1) by auto
  have nr: "Barrier \<notin> set rs" using assms(2) by auto
  have ph: "phases 0 (ws @ Barrier # rs) = map (Pair 0) ws @ map (Pair (Suc 0)) rs"
    by (simp add: phases_append_no_barrier [OF nw] phases_no_barrier [OF nr])
  show "barriers (ws @ Barrier # rs) = 1"
    using nw nr by (auto simp: barriers_def filter_empty_conv)
  show "\<forall>(q, b) \<in> set (writesOf (ws @ Barrier # rs)). q = 0"
    using assms(2) by (auto simp: writesOf_def ph split: tileEvent.splits)
  show "\<forall>(p, a) \<in> set (readsOf (ws @ Barrier # rs)). p = 1"
    using assms(1) by (auto simp: readsOf_def ph split: tileEvent.splits)
qed

lemma MedianFilter_separated:
  "barrierSeparated (MedianFilter_events GetLuma RayMax sz sharedBuffer blockIdx) threads"
proof -
  let ?E = "MedianFilter_events GetLuma RayMax sz sharedBuffer blockIdx"
  have facts: "barriers (?E t) = 1 \<and> (\<forall>(q, b) \<in> set (writesOf (?E t)). q = 0) \<and>
      (\<forall>(p, a) \<in> set (readsOf (?E t)). p = 1)" for t
  proof -
    obtain ws rs where e: "?E t = ws @ Barrier # rs"
      and ws: "\<forall>e \<in> set ws. \<exists>a. e = TileWrite a" and rs: "\<forall>e \<in> set rs. \<exists>a. e = TileRead a"
      using MedianFilter_events_shape [of GetLuma RayMax sz sharedBuffer blockIdx t] by blast
    show ?thesis
      unfolding e using writes_reads_of_shape [OF ws rs] by simp
  qed
  have "barriersByAll ?E threads"
    by (simp add: barriersByAll_def list_all_iff facts)
  moreover have "readsAfterWrites ?E threads"
  proof -
    have "if a = b then q < p else True"
      if "(p, a) \<in> set (readsOf (?E t))" "(q, b) \<in> set (writesOf (?E u))" for t u p a q b
    proof -
      have "p = 1" using facts [of t] that(1) by blast
      moreover have "q = 0" using facts [of u] that(2) by blast
      ultimately show ?thesis by simp
    qed
    then show ?thesis
      unfolding readsAfterWrites_def list_all_iff by blast
  qed
  ultimately show ?thesis by (simp add: barrierSeparated_def)
qed

text \<open>
  Claim C6, on the code. Of the three kernels with a shared tile, only
  \<open>MedianFilter\<close> separates the writes of the tile from the reads of other
  threads' elements by a barrier that every thread executes. \<open>DownScale4\<close>
  has no barrier: thread \<open>(0, 0)\<close> reads element \<open>(1, 0)\<close>, which thread
  \<open>(1, 0)\<close> writes, with no barrier between the two. In \<open>BloomGuassian\<close> the
  threads of the border return before the barrier, which the other threads
  execute: the barrier is not executed by all threads of the block.
\<close>

theorem tile_barriers:
  "barrierSeparated (MedianFilter_events GetLuma RayMax sz sharedBuffer blockIdx) (blockThreads 8 8) \<and>
   \<not> barrierSeparated DownScale4_events (blockThreads 8 8) \<and>
   barriers (DownScale4_events (0, 0)) = 0 \<and>
   \<not> barrierSeparated BloomGuassian_events (blockThreads 16 16)"
  using MedianFilter_separated DownScale4_not_separated DownScale4_no_barrier
    BloomGuassian_not_by_all
  by (simp add: barrierSeparated_def)

section \<open>Lens flare: what the pass adds\<close>

lemma flareTerms_nonneg:
  assumes "flareTerms p sz dst mouse = (c, c1, c2, s)"
  shows "0 \<le> c" "0 \<le> c1" "0 \<le> c2" "0 \<le> s"
  using assms by (auto simp: flareTerms_def Let_def)

lemma flareColor_range:
  "0 \<le> f3_x (flareColor dst) \<and> f3_x (flareColor dst) \<le> 1 \<and>
   0 \<le> f3_y (flareColor dst) \<and> f3_y (flareColor dst) \<le> 1 \<and>
   0 \<le> f3_z (flareColor dst) \<and> f3_z (flareColor dst) \<le> 1"
proof -
  have "0 \<le> 0.5 * cos a + 0.5 \<and> 0.5 * cos a + 0.5 \<le> 1" for a :: real
    using cos_ge_minus_one [of a] cos_le_one [of a] by linarith
  then show ?thesis
    by (simp add: flareColor_def adds3_def smul3_def cos3f_def)
qed

lemma LensFlareCircle_components:
  assumes "flareTerms p sz dst mouse = (c, c1, c2, s)"
  shows "f3_x (LensFlareCircle p sz dst mouse) = (c + c1 + c2 + s) * f3_x (flareColor dst) - 0.01"
    and "f3_y (LensFlareCircle p sz dst mouse) = (c + c1 + c2 + s) * f3_y (flareColor dst) - 0.01"
    and "f3_z (LensFlareCircle p sz dst mouse) = (c + c1 + c2 + s) * f3_z (flareColor dst) - 0.01"
  using assms
  by (simp_all add: LensFlareCircle_def Let_def add3_def smul3_def adds3_def algebra_simps)

lemma LensFlareCircle_lower:
  "- 0.01 \<le> f3_x (LensFlareCircle p sz dst mouse) \<and>
   - 0.01 \<le> f3_y (LensFlareCircle p sz dst mouse) \<and>
   - 0.01 \<le> f3_z (LensFlareCircle p sz dst mouse)"
proof -
  obtain c c1 c2 s where t: "flareTerms p sz dst mouse = (c, c1, c2, s)"
    by (cases "flareTerms p sz dst mouse") auto
  have "0 \<le> c + c1 + c2 + s"
    using flareTerms_nonneg [OF t] by simp
  then have "0 \<le> (c + c1 + c2 + s) * f3_x (flareColor dst)"
    "0 \<le> (c + c1 + c2 + s) * f3_y (flareColor dst)"
    "0 \<le> (c + c1 + c2 + s) * f3_z (flareColor dst)"
    using flareColor_range [of dst] by simp_all
  then show ?thesis
    unfolding LensFlareCircle_components [OF t] by simp
qed

lemma sunGlow1_nonneg: "0 \<le> sunGlow1 len angle"
  by (simp add: sunGlow1_def)

lemma sunGlow2_lower:
  assumes "0 < len" and "len * 10 \<le> 5 ^ 20"
  shows "0.02 \<le> sunGlow2 len angle"
proof -
  have "(len * 10) powr (1 / 20) \<le> (5 ^ 20) powr (1 / 20)"
    using assms by (intro powr_mono2) simp_all
  also have "(5 ^ 20 :: real) powr (1 / 20) = 5"
  proof -
    have "(5 ^ 20 :: real) = 5 powr 20" by simp
    then show ?thesis by (simp only: powr_powr) simp
  qed
  finally have up: "(len * 10) powr (1 / 20) \<le> 5" .
  have pos: "0 < (len * 10) powr (1 / 20)" using assms(1) by simp
  have "0.1 / 5 \<le> 0.1 / (len * 10) powr (1 / 20)"
    using up pos by (intro divide_left_mono) simp_all
  then have "0.02 \<le> max (0.1 / (len * 10) powr (1 / 20)) 0" by simp
  moreover have "0 \<le> \<bar>sin (angle * 3 + cos (angle * 9))\<bar> / 16 * \<bar>sin (angle * 9)\<bar>" by simp
  ultimately show ?thesis
    unfolding sunGlow2_def by linarith
qed

lemma upt_2: "[0..<2] = [0, 1]"
  by code_simp

text \<open>
  Claim C8, as the code has it. For a pixel inside the viewport whose distance
  \<open>len\<close> to the sun position is positive with \<open>len * 10 \<le> 5 ^ 20\<close>, the
  colour written back is at least the colour read, in every channel. Each
  of the two flare elements adds at least \<open>-0.01\<close> per channel, the first
  term of the sun is not negative, and the second is at least \<open>0.02\<close>.
\<close>

theorem LensFlare_adds_energy:
  assumes "LensFlare_thread sunPos colorBuffer sz blockIdx blockDim threadIdx = Some (pix, out)"
    and "0 < length2 (sub2 (flareUv sz pix) sunPos)"
    and "length2 (sub2 (flareUv sz pix) sunPos) * 10 \<le> 5 ^ 20"
  shows "inBounds sz pix \<and>
         f3_x (colorBuffer pix) \<le> f3_x out \<and>
         f3_y (colorBuffer pix) \<le> f3_y out \<and>
         f3_z (colorBuffer pix) \<le> f3_z out"
proof -
  define uv where "uv = flareUv sz pix"
  define len where "len = length2 (sub2 uv sunPos)"
  define angle where "angle = atan2f (f2_y (sub2 uv sunPos)) (f2_x (sub2 uv sunPos))"
  define e0 where "e0 = LensFlareCircle uv (flareSize 0) (flareDist 0) sunPos"
  define e1 where "e1 = LensFlareCircle uv (flareSize 1) (flareDist 1) sunPos"
  from assms(1) have pix: "pix = pixelIdx blockIdx blockDim threadIdx"
    and guard: "fst pix < fst sz" "snd pix < snd sz"
    by (auto simp: LensFlare_thread_def Let_def split: if_splits)
  from assms(1) have out: "out = adds3 (adds3 (add3 (add3 (colorBuffer pix) e0) e1)
                                     (sunGlow1 len angle)) (sunGlow2 len angle)"
    unfolding pix
    by (auto simp: LensFlare_thread_def Let_def upt_2 uv_def len_def angle_def e0_def e1_def pix
        split: if_splits)
  have ib: "inBounds sz pix"
    using guard pixelIdx_nonneg [of blockIdx blockDim threadIdx]
    by (simp add: inBounds_def pix)
  have g1: "0 \<le> sunGlow1 len angle" by (rule sunGlow1_nonneg)
  have g2: "0.02 \<le> sunGlow2 len angle"
    using assms(2,3) unfolding len_def uv_def by (rule sunGlow2_lower)
  have l0: "- 0.01 \<le> f3_x e0" "- 0.01 \<le> f3_y e0" "- 0.01 \<le> f3_z e0"
    using LensFlareCircle_lower [of uv "flareSize 0" "flareDist 0" sunPos] by (simp_all add: e0_def)
  have l1: "- 0.01 \<le> f3_x e1" "- 0.01 \<le> f3_y e1" "- 0.01 \<le> f3_z e1"
    using LensFlareCircle_lower [of uv "flareSize 1" "flareDist 1" sunPos] by (simp_all add: e1_def)
  have "f3_x (colorBuffer pix) \<le> f3_x out"
    unfolding out using g1 g2 l0(1) l1(1) by (simp add: adds3_def add3_def)
  moreover have "f3_y (colorBuffer pix) \<le> f3_y out"
    unfolding out using g1 g2 l0(2) l1(2) by (simp add: adds3_def add3_def)
  moreover have "f3_z (colorBuffer pix) \<le> f3_z out"
    unfolding out using g1 g2 l0(3) l1(3) by (simp add: adds3_def add3_def)
  ultimately show ?thesis using ib by simp
qed

theorem LensFlare_adds_energy_witness:
  "0 < length2 (sub2 (flareUv (2, 2) (0, 0)) (Float2 0.5 0.5)) \<and>
   length2 (sub2 (flareUv (2, 2) (0, 0)) (Float2 0.5 0.5)) * 10 \<le> 5 ^ 20 \<and>
   (\<exists>out. LensFlare_thread (Float2 0.5 0.5) exampleBuffer (2, 2) (0, 0) (8, 8) (0, 0) =
            Some ((0, 0), out) \<and>
          inBounds (2, 2) (0, 0) \<and>
          f3_x (exampleBuffer (0, 0)) \<le> f3_x out \<and>
          f3_y (exampleBuffer (0, 0)) \<le> f3_y out \<and>
          f3_z (exampleBuffer (0, 0)) \<le> f3_z out)"
proof -
  have len: "length2 (sub2 (flareUv (2, 2) (0, 0)) (Float2 0.5 0.5)) = sqrt 2"
    by (simp add: flareUv_def Let_def sub2_def length2_def)
  have h1: "0 < length2 (sub2 (flareUv (2, 2) (0, 0)) (Float2 0.5 0.5))"
    unfolding len by simp
  have "sqrt 2 \<le> (2::real)" by (rule real_le_lsqrt) simp_all
  then have h2: "length2 (sub2 (flareUv (2, 2) (0, 0)) (Float2 0.5 0.5)) * 10 \<le> 5 ^ 20"
    unfolding len by simp
  obtain out where
    e: "LensFlare_thread (Float2 0.5 0.5) exampleBuffer (2, 2) (0, 0) (8, 8) (0, 0) = Some ((0, 0), out)"
    by (simp add: LensFlare_thread_def Let_def pixelIdx_def)
  show ?thesis
    using h1 h2 e LensFlare_adds_energy [OF e h1 h2] by blast
qed

lemma sector_angle:
  fixes a b :: real
  assumes "0 < b"
  shows "\<bar>of_int \<lfloor>0.5 + a / b\<rfloor> * b - a\<bar> \<le> b / 2"
proof -
  define k where "k = \<lfloor>0.5 + a / b\<rfloor>"
  have "of_int k \<le> 0.5 + a / b" "0.5 + a / b < of_int k + 1"
    unfolding k_def by linarith+
  then have "(of_int k - 0.5) * b \<le> a" "a < (of_int k + 0.5) * b"
    using assms by (simp_all add: field_simps)
  then have "- (b / 2) \<le> of_int k * b - a" "of_int k * b - a \<le> b / 2"
    by (simp_all add: algebra_simps)
  then show ?thesis unfolding k_def by linarith
qed

lemma cos_sector:
  fixes t :: real
  assumes "\<bar>t\<bar> \<le> pi / 3"
  shows "1 / 2 \<le> cos t"
proof -
  have "cos (pi / 3) \<le> cos \<bar>t\<bar>"
    using assms pi_gt_zero by (intro cos_monotone_0_pi_le) simp_all
  then show ?thesis by (simp add: cos_60)
qed

lemma RegShape_far:
  assumes "2 \<le> length2 p"
  shows "LensFlareRegShape p 6 = 1"
proof -
  define a where "a = atan2f (f2_x p) (f2_y p) + 0.2"
  define b where "b = TWO_PI / of_int 6"
  have b: "b = pi / 3" by (simp add: b_def TWO_PI_def)
  have "\<bar>of_int \<lfloor>0.5 + a / b\<rfloor> * b - a\<bar> \<le> b / 2"
    by (rule sector_angle) (simp add: b)
  moreover have "b / 2 \<le> pi / 3"
    using pi_gt_zero by (simp add: b)
  ultimately have "\<bar>of_int \<lfloor>0.5 + a / b\<rfloor> * b - a\<bar> \<le> pi / 3"
    by (rule order_trans)
  then have c: "1 / 2 \<le> cos (of_int \<lfloor>0.5 + a / b\<rfloor> * b - a)"
    by (rule cos_sector)
  have "1 / 2 * 2 \<le> cos (of_int \<lfloor>0.5 + a / b\<rfloor> * b - a) * length2 p"
    using c assms by (intro mult_mono) simp_all
  then have big: "1 \<le> cos (of_int \<lfloor>0.5 + a / b\<rfloor> * b - a) * length2 p" by simp
  have "smoothstep1f 0.5 0.51 x = 1" if "1 \<le> x" for x :: real
    using that by (simp add: smoothstep1f_def clampf_def Let_def field_simps)
  from this [OF big] show ?thesis
    by (simp add: LensFlareRegShape_def Let_def a_def b_def)
qed

lemma example_args:
  "flareUv (2, 2) (0, 0) = Float2 (- 0.5) (- 0.5)"
  "flareSize 0 = 1.41"
  "flareDist 0 = - 0.3"
  by (simp_all add: flareUv_def Let_def sub2_def flareSize_def flareDist_def LensFlareRand_def
      fract_def)

lemma example_terms:
  assumes "flareTerms (Float2 (- 0.5) (- 0.5)) 1.41 (- 0.3) (Float2 0.5 0.5) = (c, c1, c2, s)"
  shows "c = 0" "c1 = 0" "c2 \<le> 0.005" "s = 0"
proof -
  let ?p = "Float2 (- 0.5) (- 0.5)" and ?m = "Float2 0.5 0.5"
  \<comment> \<open>the big circle\<close>
  have A: "length2 (add2 ?p (mul2 ?m (- 0.3))) = sqrt 0.845"
    by (simp add: length2_def add2_def mul2_def)
  have A1: "sqrt 0.845 \<le> (1::real)" by (rule real_le_lsqrt) simp_all
  have A0: "(0::real) \<le> sqrt 0.845" by simp
  have "(sqrt 0.845) powr 2 \<le> (sqrt 0.845) powr (1.41 * 1.4)"
    using A0 A1 by (intro powr_mono') simp_all
  moreover have "(sqrt 0.845) powr 2 = (0.845 :: real)"
    by simp
  ultimately have cbig: "0.01 \<le> (sqrt 0.845) powr (1.41 * 1.4)" by simp
  \<comment> \<open>the ring\<close>
  have L: "length2 (add2 ?p (mul2 ?m (- 0.3 * 4.0))) = sqrt 2.42"
    by (simp add: length2_def add2_def mul2_def)
  have L1: "(1.5::real) \<le> sqrt 2.42" by (rule real_le_rsqrt) (simp add: power2_eq_square)
  have ring: "1.001 \<le> (sqrt 2.42 + 1.41 / 2.0 - 0.3) powr (1.0 / 40.0)"
  proof -
    define v :: real where "v = sqrt 2.42 + 1.41 / 2.0 - 0.3"
    have v: "1.9 \<le> v" using L1 by (simp add: v_def)
    have "exp (0.04 :: real) \<le> 1 + 0.04 + 0.04\<^sup>2"
      by (rule exp_bound) simp_all
    also have "\<dots> \<le> v" using v by (simp add: power2_eq_square)
    finally have e: "exp (0.04 :: real) \<le> v" .
    have "0 < v" using v by simp
    then have "0.04 \<le> ln v" using e by (subst ln_ge_iff) assumption+
    then have "1 + 0.001 \<le> 1 + ln v / 40" by simp
    also have "\<dots> \<le> exp (ln v / 40)" by (rule exp_ge_add_one_self)
    also have "\<dots> = v powr (1 / 40)" using v by (simp add: powr_def)
    finally show ?thesis unfolding v_def by simp
  qed
  have ring0: "0.001 - (sqrt 2.42 + 1.41 / 2.0 - 0.3) powr (1.0 / 40.0)
                 + sin ((sqrt 2.42 + 1.41 / 2.0) * 30) \<le> 0"
  proof -
    define X :: real where "X = (sqrt 2.42 + 1.41 / 2.0 - 0.3) powr (1.0 / 40.0)"
    define S :: real where "S = sin ((sqrt 2.42 + 1.41 / 2.0) * 30)"
    have "1.001 \<le> X" unfolding X_def by (rule ring)
    moreover have "S \<le> 1" unfolding S_def by (rule sin_le_one)
    ultimately have "0.001 - X + S \<le> 0" by simp
    then show ?thesis unfolding X_def S_def .
  qed
  \<comment> \<open>the dot\<close>
  have D: "length2 (adds2 (sub2 ?p (div2 (mul2 ?m (- 0.3)) 2.0)) 0.09) = sqrt 0.22445"
    by (simp add: length2_def adds2_def sub2_def div2_def mul2_def)
  have D1: "(0.4::real) \<le> sqrt 0.22445" by (rule real_le_rsqrt) (simp add: power2_eq_square)
  have dot: "0.04 / sqrt 0.22445 \<le> (0.1 :: real)"
    using D1 by (simp add: field_simps)
  \<comment> \<open>the hexagon\<close>
  have Q: "length2 (adds2 (add2 (mul2 ?p 5.0) (mul2 (mul2 ?m (- 0.3)) 5.0)) 0.9) = sqrt 11.045"
    by (simp add: length2_def adds2_def add2_def mul2_def)
  have Q1: "(2::real) \<le> sqrt 11.045" by (rule real_le_rsqrt) simp
  have hex: "LensFlareRegShape (adds2 (add2 (mul2 ?p 5.0) (mul2 (mul2 ?m (- 0.3)) 5.0)) 0.9) 6 = 1"
    by (rule RegShape_far) (simp only: Q Q1)
  from assms have
    c: "c = max (0.01 - (length2 (add2 ?p (mul2 ?m (- 0.3)))) powr (1.41 * 1.4)) 0 * 30" and
    c1: "c1 = max (0.001 - (length2 (add2 ?p (mul2 ?m (- 0.3 * 4.0))) + 1.41 / 2.0 - 0.3) powr (1.0 / 40.0)
                 + sin ((length2 (add2 ?p (mul2 ?m (- 0.3 * 4.0))) + 1.41 / 2.0) * 30)) 0 * 3" and
    c2: "c2 = max (0.04 / ((length2 (adds2 (sub2 ?p (div2 (mul2 ?m (- 0.3)) 2.0)) 0.09) * 1.0) powr 1.0)) 0 / 20" and
    s: "s = max (0.01 - (LensFlareRegShape
                 (adds2 (add2 (mul2 ?p 5.0) (mul2 (mul2 ?m (- 0.3)) 5.0)) 0.9) 6) powr 1.0) 0 * 6"
    by (simp_all add: flareTerms_def Let_def)
  show "c = 0" unfolding c A using cbig by simp
  show "c1 = 0" unfolding c1 L using ring0 by simp
  show "c2 \<le> 0.005" unfolding c2 D using dot by simp
  show "s = 0" unfolding s hex by simp
qed

text \<open>
  A flare element can take energy away: \<open>LensFlareCircle\<close> returns the tinted
  sum of its four terms minus \<open>0.01\<close>. At pixel \<open>(0, 0)\<close> of a viewport of 2
  by 2 pixels with the sun at \<open>(0.5, 0.5)\<close>, element 0 has the circle, the
  ring and the hexagon at 0 and the dot at no more than \<open>0.005\<close>, so its red
  channel is negative.
\<close>

theorem LensFlareCircle_counterexample:
  "inBounds (2, 2) (pixelIdx (0, 0) (8, 8) (0, 0)) \<and>
   flareUv (2, 2) (pixelIdx (0, 0) (8, 8) (0, 0)) = Float2 (- 0.5) (- 0.5) \<and>
   flareSize 0 = 1.41 \<and> flareDist 0 = - 0.3 \<and>
   f3_x (LensFlareCircle (Float2 (- 0.5) (- 0.5)) 1.41 (- 0.3) (Float2 0.5 0.5)) < 0"
proof -
  obtain c c1 c2 s where
    t: "flareTerms (Float2 (- 0.5) (- 0.5)) 1.41 (- 0.3) (Float2 0.5 0.5) = (c, c1, c2, s)"
    by (cases "flareTerms (Float2 (- 0.5) (- 0.5)) 1.41 (- 0.3) (Float2 0.5 0.5)") auto
  have v: "c = 0" "c1 = 0" "c2 \<le> 0.005" "s = 0"
    by (rule example_terms [OF t])+
  have c2: "0 \<le> c2" by (rule flareTerms_nonneg [OF t])
  have col: "0 \<le> f3_x (flareColor (- 0.3))" "f3_x (flareColor (- 0.3)) \<le> 1"
    using flareColor_range [of "- 0.3"] by simp_all
  have "c2 * f3_x (flareColor (- 0.3)) \<le> 0.005 * 1"
    using v(3) c2 col by (intro mult_mono) simp_all
  then have "f3_x (LensFlareCircle (Float2 (- 0.5) (- 0.5)) 1.41 (- 0.3) (Float2 0.5 0.5)) < 0"
    unfolding LensFlareCircle_components(1) [OF t] using v by simp
  moreover have "pixelIdx (0, 0) (8, 8) (0, 0) = (0, 0)"
    by (simp add: pixelIdx_def)
  ultimately show ?thesis
    using example_args by (simp add: inBounds_def)
qed

end
